theory Spec2Isabelle
  imports Complex_Main "HOL-Library.Sublist" "HOL-Library.Product_Lexorder"
begin

section \<open>JavaScript values used by the extractor backend\<close>

text \<open>
  The repository holds three variants of one Express server: \<^verbatim>\<open>src/server.js\<close>,
  \<^verbatim>\<open>src/unnamed/part_000\<close> and \<^verbatim>\<open>src/unnamed/part_001\<close>. Definitions
  translated from \<^verbatim>\<open>server.js\<close> keep the source's names; those translated from the
  other two files carry the suffix \<open>_p0\<close> and \<open>_p1\<close>.

  Raw format records come out of \<^verbatim>\<open>JSON.parse\<close> of the extractor's output. Their fields
  are modelled with the types the extractor documents: strings and integers, each
  optional (\<open>None\<close> stands for an absent field, \<^verbatim>\<open>undefined\<close> or \<^verbatim>\<open>null\<close>, which
  the code never tells apart). Strings are ASCII strings. Numbers are integers; the
  source computes on IEEE doubles, which hold every integer of magnitude up to \<open>2\<^sup>5\<^sup>3\<close>
  exactly (\<open>safe_integer\<close> below), and on these the arithmetic of the code is the exact
  arithmetic of the model. Beyond that bound the model and the code part, and nothing is
  claimed. A \<^verbatim>\<open>null\<close> entry of the list behaves as a record without \<open>url\<close>: both are
  skipped by the first test of the loop.
\<close>

definition safe_integer :: "int \<Rightarrow> bool" where
  "safe_integer n = (\<bar>n\<bar> \<le> 2 ^ 53)"

subsection \<open>Truthiness and the operator \<^verbatim>\<open>||\<close>\<close>

definition truthy_str :: "string option \<Rightarrow> bool" where
  "truthy_str v = (case v of None \<Rightarrow> False | Some s \<Rightarrow> s \<noteq> [])"

definition truthy_num :: "int option \<Rightarrow> bool" where
  "truthy_num v = (case v of None \<Rightarrow> False | Some n \<Rightarrow> n \<noteq> 0)"

definition truthy_rat :: "rat option \<Rightarrow> bool" where
  "truthy_rat v = (case v of None \<Rightarrow> False | Some n \<Rightarrow> n \<noteq> 0)"

text \<open>\<^verbatim>\<open>v || null\<close>: the value when it is truthy, \<^verbatim>\<open>null\<close> otherwise.\<close>

definition str_or_null :: "string option \<Rightarrow> string option" where
  "str_or_null v = (if truthy_str v then v else None)"

definition num_or_null :: "int option \<Rightarrow> int option" where
  "num_or_null v = (if truthy_num v then v else None)"

definition rat_or_null :: "rat option \<Rightarrow> rat option" where
  "rat_or_null v = (if truthy_rat v then v else None)"

subsection \<open>String operations\<close>

definition is_lower :: "char \<Rightarrow> bool" where
  "is_lower c = (97 \<le> (of_char c :: nat) \<and> (of_char c :: nat) \<le> 122)"

definition is_upper :: "char \<Rightarrow> bool" where
  "is_upper c = (65 \<le> (of_char c :: nat) \<and> (of_char c :: nat) \<le> 90)"

definition is_digit :: "char \<Rightarrow> bool" where
  "is_digit c = (48 \<le> (of_char c :: nat) \<and> (of_char c :: nat) \<le> 57)"

text \<open>The ASCII members of the white space that \<^verbatim>\<open>String.prototype.trim\<close> strips:
  tab, line feed, vertical tab, form feed, carriage return and space.\<close>

definition is_space :: "char \<Rightarrow> bool" where
  "is_space c = ((of_char c :: nat) \<in> {9, 10, 11, 12, 13, 32})"

definition toUpperCase :: "string \<Rightarrow> string" where
  "toUpperCase s = map (\<lambda>c. if is_lower c then char_of ((of_char c :: nat) - 32) else c) s"

definition toLowerCase :: "string \<Rightarrow> string" where
  "toLowerCase s = map (\<lambda>c. if is_upper c then char_of ((of_char c :: nat) + 32) else c) s"

definition trim :: "string \<Rightarrow> string" where
  "trim s = rev (dropWhile is_space (rev (dropWhile is_space s)))"

text \<open>\<^verbatim>\<open>s.includes(pat)\<close>: \<open>pat\<close> occurs in \<open>s\<close> as a contiguous substring.\<close>

fun str_includes :: "string \<Rightarrow> string \<Rightarrow> bool" where
  "str_includes [] pat = (pat = [])"
| "str_includes (c # cs) pat = (prefix pat (c # cs) \<or> str_includes cs pat)"

text \<open>\<^verbatim>\<open>/audio/i.test(s)\<close>: on ASCII strings, a case-insensitive substring test.\<close>

definition test_audio_i :: "string \<Rightarrow> bool" where
  "test_audio_i s = str_includes (toLowerCase s) ''audio''"

text \<open>Number to string, for integers: decimal digits, with a minus sign when negative.\<close>

fun digits :: "nat \<Rightarrow> string" where
  "digits n = (if n < 10 then [char_of (48 + n)] else digits (n div 10) @ [char_of (48 + n mod 10)])"

declare digits.simps [simp del]

definition num_to_string :: "int \<Rightarrow> string" where
  "num_to_string n = (if n < 0 then CHR ''-'' # digits (nat (- n)) else digits (nat n))"

section \<open>The format normalizer\<close>

record raw_format =
  url :: "string option"
  vcodec :: "string option"
  acodec :: "string option"
  format :: "string option"
  format_note :: "string option"
  height :: "int option"
  width :: "int option"
  tbr :: "rat option"
  ext :: "string option"
  filesize :: "int option"
  filesize_approx :: "int option"
  format_id :: "string option"

datatype media_type = Video | Audio | Image

record candidate =
  c_label :: string
  c_url :: string
  c_type :: media_type
  c_filesize :: "int option"
  c_ext :: "string option"

record candidate_p0 = candidate +
  c_width :: "int option"
  c_height :: "int option"
  c_tbr :: "rat option"
  c_format_id :: "string option"

text \<open>
  \<^verbatim>\<open>new URL(s)\<close> is the platform's WHATWG parser, not code of the repository: the
  functions below take it as the parameter \<open>URL\<close>, which gives the \<^verbatim>\<open>protocol\<close> of the
  parsed address (\<^verbatim>\<open>"http:"\<close>, \<^verbatim>\<open>"ftp:"\<close>, ...) and \<open>None\<close> when the constructor throws.
\<close>

type_synonym url_parser = "string \<Rightarrow> string option"

text \<open>\<^verbatim>\<open>f.filesize || f.filesize_approx || null\<close>\<close>

definition pick_filesize :: "raw_format \<Rightarrow> int option" where
  "pick_filesize f =
     (if truthy_num (filesize f) then filesize f
      else if truthy_num (filesize_approx f) then filesize_approx f
      else None)"

text \<open>\<^verbatim>\<open>f.height ? f.height + "p" : ""\<close> and its first branch.\<close>

definition height_p :: "raw_format \<Rightarrow> string" where
  "height_p f = num_to_string (the (height f)) @ ''p''"

subsection \<open>\<^verbatim>\<open>server.js\<close>\<close>

definition url_ok :: "url_parser \<Rightarrow> raw_format \<Rightarrow> bool" where
  "url_ok URL f =
     (if \<not> truthy_str (url f) then False
      else (case URL (the (url f)) of
              None \<Rightarrow> False
            | Some protocol \<Rightarrow> protocol \<in> set [''http:'', ''https:'']))"

definition classify :: "raw_format \<Rightarrow> media_type" where
  "classify f =
     (let type = Video;
          type = (if vcodec f = Some ''none'' \<or> (truthy_str (acodec f) \<and> \<not> truthy_str (vcodec f))
                  then Audio else type);
          type = (if (case format f of None \<Rightarrow> False | Some s \<Rightarrow> str_includes s ''audio'')
                  then Audio else type)
      in type)"

definition make_label :: "raw_format \<Rightarrow> string" where
  "make_label f =
     (if truthy_str (format_note f)
      then trim (the (format_note f) @ '' '' @ (if truthy_num (height f) then height_p f else ''''))
      else if truthy_num (height f) then height_p f
      else (case ext f of
              None \<Rightarrow> ''Unknown''
            | Some e \<Rightarrow> if toUpperCase e \<noteq> [] then toUpperCase e else ''Unknown''))"

definition make_candidate :: "raw_format \<Rightarrow> candidate" where
  "make_candidate f =
     \<lparr> c_label = make_label f,
       c_url = the (url f),
       c_type = classify f,
       c_filesize = pick_filesize f,
       c_ext = str_or_null (ext f) \<rparr>"

text \<open>The loop body, with the local variables \<open>out\<close> and \<open>seen\<close> passed along.\<close>

fun normalize_loop :: "url_parser \<Rightarrow> raw_format list \<Rightarrow> candidate list \<Rightarrow> string set \<Rightarrow> candidate list" where
  "normalize_loop URL [] out seen = out"
| "normalize_loop URL (f # fs) out seen =
     (if \<not> url_ok URL f then normalize_loop URL fs out seen
      else if the (url f) \<in> seen then normalize_loop URL fs out seen
      else normalize_loop URL fs (out @ [make_candidate f]) (insert (the (url f)) seen))"

definition normalizeAndFilterFormats :: "url_parser \<Rightarrow> raw_format list \<Rightarrow> candidate list" where
  "normalizeAndFilterFormats URL rawFormats = normalize_loop URL rawFormats [] {}"

subsection \<open>\<^verbatim>\<open>part_000\<close>\<close>

definition classify_p0 :: "raw_format \<Rightarrow> media_type" where
  "classify_p0 f =
     (let type = Video;
          type = (if vcodec f = Some ''none'' \<or> (truthy_str (acodec f) \<and> \<not> truthy_str (vcodec f))
                  then Audio else type);
          type = (if truthy_str (format f) \<and> test_audio_i (the (format f)) then Audio else type);
          type = (if truthy_str (ext f) \<and>
                     toLowerCase (the (ext f)) \<in> set [''jpg'', ''jpeg'', ''png'', ''webp'', ''gif'']
                  then Image else type)
      in type)"

text \<open>\<^verbatim>\<open>labelParts.join(" ")\<close>\<close>

fun join_space :: "string list \<Rightarrow> string" where
  "join_space [] = []"
| "join_space [p] = p"
| "join_space (p # q # ps) = p @ '' '' @ join_space (q # ps)"

definition make_label_p0 :: "raw_format \<Rightarrow> string" where
  "make_label_p0 f =
     (let labelParts = [];
          labelParts = (if truthy_str (format_note f) then labelParts @ [trim (the (format_note f))]
                        else labelParts);
          labelParts = (if truthy_num (height f) then labelParts @ [height_p f] else labelParts);
          labelParts = (if labelParts = [] \<and> truthy_str (format f) then labelParts @ [the (format f)]
                        else labelParts)
      in if join_space labelParts \<noteq> [] then join_space labelParts
         else if truthy_str (ext f) then toUpperCase (the (ext f))
         else ''Unknown'')"

definition make_candidate_p0 :: "raw_format \<Rightarrow> candidate_p0" where
  "make_candidate_p0 f =
     \<lparr> c_label = make_label_p0 f,
       c_url = the (url f),
       c_type = classify_p0 f,
       c_filesize = pick_filesize f,
       c_ext = str_or_null (ext f),
       c_width = num_or_null (width f),
       c_height = num_or_null (height f),
       c_tbr = rat_or_null (tbr f),
       c_format_id = str_or_null (format_id f) \<rparr>"

fun normalize_loop_p0 :: "url_parser \<Rightarrow> raw_format list \<Rightarrow> candidate_p0 list \<Rightarrow> string set \<Rightarrow> candidate_p0 list" where
  "normalize_loop_p0 URL [] out seen = out"
| "normalize_loop_p0 URL (f # fs) out seen =
     (if \<not> url_ok URL f then normalize_loop_p0 URL fs out seen
      else if the (url f) \<in> seen then normalize_loop_p0 URL fs out seen
      else normalize_loop_p0 URL fs (out @ [make_candidate_p0 f]) (insert (the (url f)) seen))"

definition normalizeAndFilterFormats_p0 :: "url_parser \<Rightarrow> raw_format list \<Rightarrow> candidate_p0 list" where
  "normalizeAndFilterFormats_p0 URL rawFormats = normalize_loop_p0 URL rawFormats [] {}"

subsection \<open>\<^verbatim>\<open>part_001\<close>\<close>

text \<open>This variant only asks whether the address parses; it never reads the protocol.\<close>

definition url_ok_p1 :: "url_parser \<Rightarrow> raw_format \<Rightarrow> bool" where
  "url_ok_p1 URL f =
     (if \<not> truthy_str (url f) then False
      else (case URL (the (url f)) of None \<Rightarrow> False | Some protocol \<Rightarrow> True))"

definition classify_p1 :: "raw_format \<Rightarrow> media_type" where
  "classify_p1 f =
     (let type = Video;
          type = (if vcodec f = Some ''none'' \<or> (truthy_str (acodec f) \<and> \<not> truthy_str (vcodec f))
                  then Audio else type)
      in type)"

definition make_candidate_p1 :: "raw_format \<Rightarrow> candidate" where
  "make_candidate_p1 f =
     \<lparr> c_label = make_label f,
       c_url = the (url f),
       c_type = classify_p1 f,
       c_filesize = pick_filesize f,
       c_ext = str_or_null (ext f) \<rparr>"

fun normalize_loop_p1 :: "url_parser \<Rightarrow> raw_format list \<Rightarrow> candidate list \<Rightarrow> string set \<Rightarrow> candidate list" where
  "normalize_loop_p1 URL [] out seen = out"
| "normalize_loop_p1 URL (f # fs) out seen =
     (if \<not> url_ok_p1 URL f then normalize_loop_p1 URL fs out seen
      else if the (url f) \<in> seen then normalize_loop_p1 URL fs out seen
      else normalize_loop_p1 URL fs (out @ [make_candidate_p1 f]) (insert (the (url f)) seen))"

definition normalizeAndFilterFormats_p1 :: "url_parser \<Rightarrow> raw_format list \<Rightarrow> candidate list" where
  "normalizeAndFilterFormats_p1 URL rawFormats = normalize_loop_p1 URL rawFormats [] {}"

section \<open>The result assembler: \<^verbatim>\<open>humanFileSize\<close>\<close>

text \<open>
  The argument of \<^verbatim>\<open>humanFileSize\<close> is a candidate's \<^verbatim>\<open>filesize\<close>: \<open>None\<close> for
  \<^verbatim>\<open>null\<close> (and for \<^verbatim>\<open>undefined\<close> and \<^verbatim>\<open>NaN\<close>, which take the same first
  \<^verbatim>\<open>return\<close>), \<open>Some n\<close> for the integer \<open>n\<close>. For a safe integer \<open>n\<close> the double
  is \<open>n\<close> itself and dividing it by 1024 is exact, so the running value of \<^verbatim>\<open>bytes\<close> is
  the rational number it denotes, of magnitude at most \<open>2\<^sup>4\<^sup>3\<close>. The definitions are the
  code on safe integers only: for larger inputs the double is a rounded value and
  \<^verbatim>\<open>toFixed\<close> may print an exponent, which the model does not follow.
\<close>

definition thresh :: int where
  "thresh = 1024"

definition units :: "string list" where
  "units = [''KB'', ''MB'', ''GB'', ''TB'']"

text \<open>The \<^verbatim>\<open>do ... while\<close> loop: the body runs once before the test.\<close>

function divide_loop :: "rat \<Rightarrow> int \<Rightarrow> rat \<times> int" where
  "divide_loop bytes u =
     (if \<bar>bytes / of_int thresh\<bar> \<ge> of_int thresh \<and> u + 1 < int (length units) - 1
      then divide_loop (bytes / of_int thresh) (u + 1)
      else (bytes / of_int thresh, u + 1))"
  by pat_completeness auto
termination
  by (relation "measure (\<lambda>(bytes, u). nat (int (length units) - 1 - u))") auto

declare divide_loop.simps [simp del]

text \<open>
  \<^verbatim>\<open>x.toFixed(1)\<close> for an exactly represented \<open>x\<close> with \<open>\<bar>x\<bar> < 10\<^sup>2\<^sup>1\<close>: the sign, then
  the integer \<open>n\<close> nearest to \<open>10 * \<bar>x\<bar>\<close> (the larger one on a tie), written with its last
  digit after the point. From \<open>10\<^sup>2\<^sup>1\<close> on the source prints an exponent form; the values
  \<^verbatim>\<open>humanFileSize\<close> reaches from a safe integer stay below \<open>2\<^sup>4\<^sup>3\<close>.
\<close>

definition toFixed1 :: "rat \<Rightarrow> string" where
  "toFixed1 x =
     (let s = (if x < 0 then ''-'' else []);
          n = nat \<lfloor>\<bar>x\<bar> * 10 + 1 / 2\<rfloor>
      in s @ digits (n div 10) @ ''.'' @ digits (n mod 10))"

definition humanFileSize :: "int option \<Rightarrow> string" where
  "humanFileSize bytes =
     (if \<not> truthy_num bytes then ''Unknown''
      else if \<bar>the bytes\<bar> < thresh then num_to_string (the bytes) @ '' B''
      else (case divide_loop (of_int (the bytes)) (- 1) of
              (bytes', u) \<Rightarrow> toFixed1 bytes' @ '' '' @ units ! nat u))"

section \<open>The size resolver\<close>

datatype 'a js_num = NaN | Num 'a

text \<open>
  \<^verbatim>\<open>parseInt(s, 10)\<close>: leading white space, an optional sign, then the longest run of
  decimal digits; \<^verbatim>\<open>NaN\<close> when that run is empty. The source returns the double nearest
  to the integer the digits denote: that is the integer itself when it is safe, and a
  rounded value otherwise, which the model does not follow.
\<close>

definition digits_value :: "string \<Rightarrow> nat" where
  "digits_value ds = foldl (\<lambda>a c. 10 * a + ((of_char c :: nat) - 48)) 0 ds"

definition parseInt :: "string \<Rightarrow> int js_num" where
  "parseInt s =
     (let S = dropWhile is_space s;
          sign = (if S \<noteq> [] \<and> hd S = CHR ''-'' then - 1 else 1);
          S = (if S \<noteq> [] \<and> (hd S = CHR ''+'' \<or> hd S = CHR ''-'') then tl S else S);
          Z = takeWhile is_digit S
      in if Z = [] then NaN else Num (sign * int (digits_value Z)))"

text \<open>A value is truthy when it is a number other than zero; \<^verbatim>\<open>null\<close> is \<open>None\<close>.\<close>

definition truthy_len :: "int js_num option \<Rightarrow> bool" where
  "truthy_len v = (case v of Some (Num n) \<Rightarrow> n \<noteq> 0 | _ \<Rightarrow> False)"

definition len_value :: "int js_num option \<Rightarrow> int" where
  "len_value v = (case v of Some (Num n) \<Rightarrow> n | _ \<Rightarrow> 0)"

text \<open>\<^verbatim>\<open>String(len).match(/\/(\d+)$/)\<close>: the digits after the last slash, when the
  text after that slash is a non-empty run of digits.\<close>

definition match_total :: "string \<Rightarrow> string option" where
  "match_total s =
     (if CHR ''/'' \<in> set s
      then (let d = rev (takeWhile (\<lambda>c. c \<noteq> CHR ''/'') (rev s))
            in if d \<noteq> [] \<and> list_all is_digit d then Some d else None)
      else None)"

subsection \<open>The collaborators of a request\<close>

text \<open>
  Everything outside the repository is a field of the record \<open>world\<close>: the platform's
  \<^verbatim>\<open>URL\<close> and \<^verbatim>\<open>JSON\<close>, the cache store, the extractor process and the HTTP client.
  A call that throws or rejects returns \<open>Inl\<close> with the error's message.
\<close>

type_synonym exn = string

record headers =
  content_length :: "string option"
  content_range :: "string option"

record meta =
  meta_formats :: "raw_format list option"

record mapped =
  m_label :: string
  m_size :: string
  m_url :: string
  m_type :: media_type

record 'j world =
  new_URL :: url_parser
  JSON_parse :: "string \<Rightarrow> exn + meta option"
  JSON_parse_cached :: "string \<Rightarrow> exn + 'j"
  JSON_stringify :: "mapped list \<Rightarrow> string"
  redis_get :: "string \<Rightarrow> exn + string option"
  redis_set :: "string \<Rightarrow> string \<Rightarrow> nat \<Rightarrow> exn + unit"
  execFileAsync :: "string \<Rightarrow> string list \<Rightarrow> exn + string"
  axios_head :: "string \<Rightarrow> exn + headers"
  axios_get :: "string \<Rightarrow> exn + headers"

text \<open>The calls a request makes to its collaborators, in the order they are issued.\<close>

datatype event =
    RedisGet string
  | ExecFile string "string list"
  | Head string
  | GetRange string
  | RedisSet string string nat

subsection \<open>\<^verbatim>\<open>getContentLength\<close>\<close>

definition getContentLength :: "'j world \<Rightarrow> string \<Rightarrow> int js_num option \<times> event list" where
  "getContentLength w u =
     (case axios_head w u of
        Inr resp \<Rightarrow>
          (let len = content_length resp
           in (if truthy_str len then Some (parseInt (the len)) else None, [Head u]))
      | Inl e \<Rightarrow> (None, [Head u]))"

definition getContentLength_p0 :: "'j world \<Rightarrow> string \<Rightarrow> int js_num option \<times> event list" where
  "getContentLength_p0 w u =
     (case axios_head w u of
        Inr resp \<Rightarrow>
          (let len = content_length resp
           in (if truthy_str len then Some (parseInt (the len)) else None, [Head u]))
      | Inl e \<Rightarrow>
          (case axios_get w u of
             Inr resp \<Rightarrow>
               (let len = (if truthy_str (content_range resp) then content_range resp
                           else content_length resp)
                in if truthy_str len
                   then (case match_total (the len) of
                           Some m1 \<Rightarrow> (Some (parseInt m1), [Head u, GetRange u])
                         | None \<Rightarrow>
                             (if truthy_len (Some (parseInt (the len))) then Some (parseInt (the len))
                              else None, [Head u, GetRange u]))
                   else (None, [Head u, GetRange u]))
           | Inl err \<Rightarrow> (None, [Head u, GetRange u])))"

subsection \<open>Filling in missing sizes\<close>

text \<open>
  The callbacks of \<^verbatim>\<open>Promise.all\<close> each write the \<^verbatim>\<open>filesize\<close> of their own candidate
  only, so the result does not depend on how they interleave: the model runs them one
  after the other. A candidate is named by its index in \<^verbatim>\<open>formats\<close>, since the
  filtered list shares its objects with \<^verbatim>\<open>formats\<close>.
\<close>

definition unresolved :: "'a candidate_scheme list \<Rightarrow> nat list" where
  "unresolved fs = filter (\<lambda>i. \<not> truthy_num (c_filesize (fs ! i))) [0..<length fs]"

definition probe :: "'j world \<Rightarrow> candidate list \<times> event list \<Rightarrow> nat \<Rightarrow> candidate list \<times> event list" where
  "probe w st i =
     (case st of (fs, tr) \<Rightarrow>
        (case getContentLength w (c_url (fs ! i)) of (len, evs) \<Rightarrow>
           (if truthy_len len then fs[i := (fs ! i)\<lparr>c_filesize := Some (len_value len)\<rparr>] else fs,
            tr @ evs)))"

text \<open>\<^verbatim>\<open>formats.filter(f => !f.filesize).slice(0, 6).map(...)\<close>\<close>

definition fill_sizes :: "'j world \<Rightarrow> candidate list \<Rightarrow> candidate list \<times> event list" where
  "fill_sizes w fs = foldl (probe w) (fs, []) (take 6 (unresolved fs))"

definition probe_p0 :: "'j world \<Rightarrow> candidate_p0 list \<times> event list \<Rightarrow> nat \<Rightarrow> candidate_p0 list \<times> event list" where
  "probe_p0 w st i =
     (case st of (fs, tr) \<Rightarrow>
        (case getContentLength_p0 w (c_url (fs ! i)) of (len, evs) \<Rightarrow>
           (if truthy_len len then fs[i := (fs ! i)\<lparr>c_filesize := Some (len_value len)\<rparr>] else fs,
            tr @ evs)))"

definition concurrency :: nat where
  "concurrency = 6"

text \<open>The loop \<^verbatim>\<open>for (let i = 0; i < toCheck.length; i += concurrency)\<close> of \<^verbatim>\<open>part_000\<close>.\<close>

function probe_chunks_p0 :: "'j world \<Rightarrow> nat list \<Rightarrow> nat \<Rightarrow> candidate_p0 list \<times> event list \<Rightarrow> candidate_p0 list \<times> event list" where
  "probe_chunks_p0 w toCheck i st =
     (if i < length toCheck
      then probe_chunks_p0 w toCheck (i + concurrency)
             (foldl (probe_p0 w) st (take concurrency (drop i toCheck)))
      else st)"
  by pat_completeness auto
termination
  by (relation "measure (\<lambda>(w, toCheck, i, st). length toCheck - i)") (auto simp: concurrency_def)

declare probe_chunks_p0.simps [simp del]

definition fill_sizes_p0 :: "'j world \<Rightarrow> candidate_p0 list \<Rightarrow> candidate_p0 list \<times> event list" where
  "fill_sizes_p0 w fs = probe_chunks_p0 w (unresolved fs) 0 (fs, [])"

section \<open>Assembling the response\<close>

definition to_mapped :: "candidate \<Rightarrow> mapped" where
  "to_mapped f =
     \<lparr> m_label = c_label f, m_size = humanFileSize (c_filesize f), m_url = c_url f, m_type = c_type f \<rparr>"

definition to_mapped_p0 :: "candidate_p0 \<Rightarrow> mapped" where
  "to_mapped_p0 f =
     \<lparr> m_label = (if c_label f \<noteq> [] then c_label f
                  else if truthy_num (c_height f) then num_to_string (the (c_height f)) @ ''p''
                  else if truthy_str (c_ext f) then the (c_ext f)
                  else ''file''),
       m_size = humanFileSize (c_filesize f),
       m_url = c_url f,
       m_type = c_type f \<rparr>"

text \<open>
  \<^verbatim>\<open>parseFloat(s)\<close> on the texts \<^verbatim>\<open>humanFileSize\<close> produces: leading white space, an
  optional sign, digits, and optionally a point and more digits. (Exponents and
  \<^verbatim>\<open>Infinity\<close> never follow the digits of such a text.) The value is kept exact.
\<close>

definition parseFloat :: "string \<Rightarrow> rat js_num" where
  "parseFloat s =
     (let S = dropWhile is_space s;
          sign = (if S \<noteq> [] \<and> hd S = CHR ''-'' then - 1 else 1);
          S = (if S \<noteq> [] \<and> (hd S = CHR ''+'' \<or> hd S = CHR ''-'') then tl S else S);
          ip = takeWhile is_digit S;
          S = dropWhile is_digit S;
          fp = (if S \<noteq> [] \<and> hd S = CHR ''.'' then takeWhile is_digit (tl S) else [])
      in if ip = [] \<and> fp = [] then NaN
         else Num (sign * (of_nat (digits_value ip) + of_nat (digits_value fp) / 10 ^ length fp)))"

text \<open>\<^verbatim>\<open>parseFloat(x.size) || 0\<close>\<close>

definition size_or_0 :: "string \<Rightarrow> rat" where
  "size_or_0 s = (case parseFloat s of NaN \<Rightarrow> 0 | Num v \<Rightarrow> v)"

text \<open>The comparator handed to \<^verbatim>\<open>mapped.sort\<close> in \<^verbatim>\<open>part_000\<close>.\<close>

definition compare_mapped :: "mapped \<Rightarrow> mapped \<Rightarrow> rat" where
  "compare_mapped a b =
     (if m_type a = m_type b then (let as = size_or_0 (m_size a); bs = size_or_0 (m_size b) in bs - as)
      else if m_type a = Video then - 1
      else if m_type b = Video then 1
      else if m_type a = Audio then - 1
      else 1)"

text \<open>
  \<^verbatim>\<open>Array.prototype.sort\<close> is stable, and this comparator is a consistent ordering, so the
  sorted array is the one a stable insertion sort computes.
\<close>

fun insert_sorted :: "('a \<Rightarrow> 'a \<Rightarrow> rat) \<Rightarrow> 'a \<Rightarrow> 'a list \<Rightarrow> 'a list" where
  "insert_sorted cmp x [] = [x]"
| "insert_sorted cmp x (y # ys) = (if cmp x y \<le> 0 then x # y # ys else y # insert_sorted cmp x ys)"

definition array_sort :: "('a \<Rightarrow> 'a \<Rightarrow> rat) \<Rightarrow> 'a list \<Rightarrow> 'a list" where
  "array_sort cmp xs = foldr (insert_sorted cmp) xs []"

section \<open>The handler of \<^verbatim>\<open>GET /api/extract\<close>\<close>

text \<open>
  The handlers of \<^verbatim>\<open>server.js\<close> and \<^verbatim>\<open>part_000\<close> are functions of the process
  environment, the collaborators' answers and the request; they return what is sent and
  the calls made. Values of the query string and of the header are optional strings. The
  handler of \<^verbatim>\<open>part_001\<close> is that of \<^verbatim>\<open>server.js\<close> with caching switched off and two
  more fields in the payload; it is not repeated. In \<^verbatim>\<open>part_000\<close> the local
  \<^verbatim>\<open>const height\<close> of the normalizer is never read and has no counterpart here.
\<close>

record process_env =
  env_API_KEY :: "string option"
  env_REDIS_URL :: "string option"

definition API_KEY :: "process_env \<Rightarrow> string option" where
  "API_KEY penv = str_or_null (env_API_KEY penv)"

definition REDIS_URL :: "process_env \<Rightarrow> string option" where
  "REDIS_URL penv = str_or_null (env_REDIS_URL penv)"

text \<open>\<^verbatim>\<open>ENABLE_CACHING\<close>; the handle \<^verbatim>\<open>redis\<close> is set exactly when it holds.\<close>

definition ENABLE_CACHING :: "process_env \<Rightarrow> bool" where
  "ENABLE_CACHING penv = truthy_str (REDIS_URL penv)"

record request =
  query_url :: "string option"
  header_x_api_key :: "string option"
  query_apikey :: "string option"

datatype 'j body = ErrorBody string | Payload "mapped list" | CachedBody 'j

text \<open>A request is answered with a status and a body, or the handler's promise rejects
  and the handler sends nothing.\<close>

datatype 'j outcome = Responded nat "'j body" | Rejected exn

text \<open>\<^verbatim>\<open>stdout.split(/\r?\n/)\<close>\<close>

definition strip_cr :: "string \<Rightarrow> string" where
  "strip_cr l = (if l \<noteq> [] \<and> last l = CHR 0x0D then butlast l else l)"

fun split_lines :: "string \<Rightarrow> string \<Rightarrow> string list" where
  "split_lines cur [] = [cur]"
| "split_lines cur (c # cs) =
     (if c = CHR 0x0A then strip_cr cur # split_lines [] cs else split_lines (cur @ [c]) cs)"

definition first_json_line :: "string \<Rightarrow> string option" where
  "first_json_line stdout = find (\<lambda>l. prefix ''{'' (trim l)) (split_lines [] stdout)"

text \<open>The cache key, \<^verbatim>\<open>`extract:${targetUrl}`\<close>.\<close>

definition cache_key :: "string \<Rightarrow> string" where
  "cache_key targetUrl = ''extract:'' @ targetUrl"

subsection \<open>\<^verbatim>\<open>server.js\<close>\<close>

definition parse_meta :: "'j world \<Rightarrow> string \<Rightarrow> exn + meta option" where
  "parse_meta w stdout =
     (case JSON_parse w stdout of
        Inr m \<Rightarrow> Inr m
      | Inl e \<Rightarrow>
          (case first_json_line stdout of
             Some firstLine \<Rightarrow> JSON_parse w firstLine
           | None \<Rightarrow> Inr None))"

text \<open>The \<^verbatim>\<open>catch\<close> of the extraction block: \<^verbatim>\<open>error.message || "Failed to extract formats"\<close>.\<close>

definition fail_500 :: "exn \<Rightarrow> 'j outcome" where
  "fail_500 e = Responded 500 (ErrorBody (if e \<noteq> [] then e else ''Failed to extract formats''))"

definition extract_pipeline :: "process_env \<Rightarrow> 'j world \<Rightarrow> string \<Rightarrow> string \<Rightarrow> 'j outcome \<times> event list" where
  "extract_pipeline penv w targetUrl cacheKey =
     (let ytDlpPath = ''./yt-dlp'';
          args = [''-j'', ''--no-warnings'', targetUrl]
      in case execFileAsync w ytDlpPath args of
           Inl e \<Rightarrow> (fail_500 e, [ExecFile ytDlpPath args])
         | Inr stdout \<Rightarrow>
             (case parse_meta w stdout of
                Inl e \<Rightarrow> (fail_500 e, [ExecFile ytDlpPath args])
              | Inr None \<Rightarrow> (fail_500 ''yt-dlp returned no valid JSON'', [ExecFile ytDlpPath args])
              | Inr (Some meta) \<Rightarrow>
                  (let rawFormats = (case meta_formats meta of Some fs \<Rightarrow> fs | None \<Rightarrow> []);
                       formats = normalizeAndFilterFormats (new_URL w) rawFormats;
                       filled = fill_sizes w formats;
                       mapped = map to_mapped (fst filled);
                       payload = mapped;
                       tr = ExecFile ytDlpPath args # snd filled
                   in if ENABLE_CACHING penv
                      then (case redis_set w cacheKey (JSON_stringify w payload) 300 of
                              Inl e \<Rightarrow> (fail_500 e, tr @ [RedisSet cacheKey (JSON_stringify w payload) 300])
                            | Inr _ \<Rightarrow>
                                (Responded 200 (Payload payload),
                                 tr @ [RedisSet cacheKey (JSON_stringify w payload) 300]))
                      else (Responded 200 (Payload payload), tr))))"

definition extract_handler :: "process_env \<Rightarrow> 'j world \<Rightarrow> request \<Rightarrow> 'j outcome \<times> event list" where
  "extract_handler penv w req =
     (let targetUrl = query_url req
      in if \<not> truthy_str targetUrl then (Responded 400 (ErrorBody ''Missing url parameter''), [])
         else if new_URL w (the targetUrl) = None then (Responded 400 (ErrorBody ''Invalid url''), [])
         else (let cacheKey = cache_key (the targetUrl)
               in if ENABLE_CACHING penv
                  then (case redis_get w cacheKey of
                          Inl e \<Rightarrow> (Rejected e, [RedisGet cacheKey])
                        | Inr cached \<Rightarrow>
                            (if truthy_str cached
                             then (case JSON_parse_cached w (the cached) of
                                     Inl e \<Rightarrow> (Rejected e, [RedisGet cacheKey])
                                   | Inr parsed \<Rightarrow> (Responded 200 (CachedBody parsed), [RedisGet cacheKey]))
                             else (case extract_pipeline penv w (the targetUrl) cacheKey of
                                     (res, tr) \<Rightarrow> (res, RedisGet cacheKey # tr))))
                  else extract_pipeline penv w (the targetUrl) cacheKey))"

subsection \<open>\<^verbatim>\<open>part_000\<close>\<close>

definition parse_meta_p0 :: "'j world \<Rightarrow> string \<Rightarrow> exn + meta option" where
  "parse_meta_p0 w stdout =
     (case JSON_parse w stdout of
        Inr m \<Rightarrow> Inr m
      | Inl e \<Rightarrow>
          (case first_json_line stdout of
             Some firstLine \<Rightarrow> JSON_parse w firstLine
           | None \<Rightarrow> Inl e))"

text \<open>The \<^verbatim>\<open>catch\<close> of the extraction block answers with a fixed message.\<close>

definition fail_500_p0 :: "exn \<Rightarrow> 'j outcome" where
  "fail_500_p0 err = Responded 500 (ErrorBody ''Failed to extract formats'')"

definition extract_pipeline_p0 :: "process_env \<Rightarrow> 'j world \<Rightarrow> string \<Rightarrow> string \<Rightarrow> 'j outcome \<times> event list" where
  "extract_pipeline_p0 penv w targetUrl cacheKey =
     (let args = [''-j'', ''--no-warnings'', targetUrl]
      in case execFileAsync w ''yt-dlp'' args of
           Inl e \<Rightarrow> (fail_500_p0 e, [ExecFile ''yt-dlp'' args])
         | Inr stdout \<Rightarrow>
             (case parse_meta_p0 w stdout of
                Inl e \<Rightarrow> (fail_500_p0 e, [ExecFile ''yt-dlp'' args])
              | Inr None \<Rightarrow> (fail_500_p0 ''TypeError'', [ExecFile ''yt-dlp'' args])
              | Inr (Some meta) \<Rightarrow>
                  (let rawFormats = (case meta_formats meta of Some fs \<Rightarrow> fs | None \<Rightarrow> []);
                       formats = normalizeAndFilterFormats_p0 (new_URL w) rawFormats;
                       filled = fill_sizes_p0 w formats;
                       mapped = map to_mapped_p0 (fst filled);
                       mapped = array_sort compare_mapped mapped;
                       payload = mapped;
                       tr = ExecFile ''yt-dlp'' args # snd filled
                   in if ENABLE_CACHING penv
                      then (case redis_set w cacheKey (JSON_stringify w payload) 300 of
                              Inl e \<Rightarrow>
                                (Responded 200 (Payload payload),
                                 tr @ [RedisSet cacheKey (JSON_stringify w payload) 300])
                            | Inr _ \<Rightarrow>
                                (Responded 200 (Payload payload),
                                 tr @ [RedisSet cacheKey (JSON_stringify w payload) 300]))
                      else (Responded 200 (Payload payload), tr))))"

text \<open>The key check: \<^verbatim>\<open>req.headers["x-api-key"] || req.query.apikey\<close> against \<^verbatim>\<open>API_KEY\<close>.\<close>

definition supplied_key :: "request \<Rightarrow> string option" where
  "supplied_key req = (if truthy_str (header_x_api_key req) then header_x_api_key req else query_apikey req)"

definition key_rejected :: "process_env \<Rightarrow> request \<Rightarrow> bool" where
  "key_rejected penv req =
     (truthy_str (API_KEY penv) \<and> (\<not> truthy_str (supplied_key req) \<or> supplied_key req \<noteq> API_KEY penv))"

definition extract_handler_p0 :: "process_env \<Rightarrow> 'j world \<Rightarrow> request \<Rightarrow> 'j outcome \<times> event list" where
  "extract_handler_p0 penv w req =
     (let targetUrl = query_url req
      in if \<not> truthy_str targetUrl then (Responded 400 (ErrorBody ''Missing url parameter''), [])
         else if key_rejected penv req then (Responded 401 (ErrorBody ''Missing or invalid API key''), [])
         else if new_URL w (the targetUrl) = None then (Responded 400 (ErrorBody ''Invalid url''), [])
         else (let cacheKey = cache_key (the targetUrl)
               in if ENABLE_CACHING penv
                  then (case redis_get w cacheKey of
                          Inr cached \<Rightarrow>
                            (if truthy_str cached
                             then (case JSON_parse_cached w (the cached) of
                                     Inr parsed \<Rightarrow> (Responded 200 (CachedBody parsed), [RedisGet cacheKey])
                                   | Inl e \<Rightarrow>
                                       (case extract_pipeline_p0 penv w (the targetUrl) cacheKey of
                                          (res, tr) \<Rightarrow> (res, RedisGet cacheKey # tr)))
                             else (case extract_pipeline_p0 penv w (the targetUrl) cacheKey of
                                     (res, tr) \<Rightarrow> (res, RedisGet cacheKey # tr)))
                        | Inl e \<Rightarrow>
                            (case extract_pipeline_p0 penv w (the targetUrl) cacheKey of
                               (res, tr) \<Rightarrow> (res, RedisGet cacheKey # tr)))
                  else extract_pipeline_p0 penv w (the targetUrl) cacheKey))"

section \<open>Auxiliary definitions\<close>

text \<open>
  The three normalizer loops share one shape: a validity test and a constructor. The
  properties of the loops are proved once, for this common shape.
\<close>

fun dedup_loop :: "(raw_format \<Rightarrow> bool) \<Rightarrow> (raw_format \<Rightarrow> 'a candidate_scheme) \<Rightarrow> raw_format list \<Rightarrow>
    'a candidate_scheme list \<Rightarrow> string set \<Rightarrow> 'a candidate_scheme list" where
  "dedup_loop ok mk [] out seen = out"
| "dedup_loop ok mk (f # fs) out seen =
     (if \<not> ok f then dedup_loop ok mk fs out seen
      else if the (url f) \<in> seen then dedup_loop ok mk fs out seen
      else dedup_loop ok mk fs (out @ [mk f]) (insert (the (url f)) seen))"

definition url_keyed :: "(raw_format \<Rightarrow> bool) \<Rightarrow> (raw_format \<Rightarrow> 'a candidate_scheme) \<Rightarrow> bool" where
  "url_keyed ok mk =
     ((\<forall>f. c_url (mk f) = the (url f)) \<and> (\<forall>f. ok f \<longrightarrow> url f \<noteq> None) \<and>
      (\<forall>f g. url f = url g \<longrightarrow> ok f = ok g))"

text \<open>
  A stand-in for \<^verbatim>\<open>new URL\<close> on the concrete inputs below: it reads the scheme up to
  the first colon, as the WHATWG parser does first, and accepts whatever follows.
\<close>

definition sample_URL :: url_parser where
  "sample_URL s =
     (let scheme = takeWhile (\<lambda>c. c \<noteq> CHR '':'') s
      in if scheme \<noteq> [] \<and> length scheme < length s \<and>
            (is_lower (hd scheme) \<or> is_upper (hd scheme)) \<and>
            list_all (\<lambda>c. is_lower c \<or> is_upper c \<or> is_digit c \<or> c \<in> set ''+-.'') scheme
         then Some (toLowerCase scheme @ '':'')
         else None)"

text \<open>A record with no field set.\<close>

definition empty_format :: raw_format where
  "empty_format =
     \<lparr> url = None, vcodec = None, acodec = None, format = None, format_note = None,
       height = None, width = None, tbr = None, ext = None, filesize = None,
       filesize_approx = None, format_id = None \<rparr>"

text \<open>The two records of the specification's end-to-end scenario: the same address twice.\<close>

definition sample_duplicates :: "raw_format list" where
  "sample_duplicates =
     [empty_format\<lparr>url := Some ''https://a/x.mp4'', height := Some 720, vcodec := Some ''h264''\<rparr>,
      empty_format\<lparr>url := Some ''https://a/x.mp4'', height := Some 480\<rparr>]"

text \<open>
  The unit the specification describes for a magnitude of at least 1024: divide by 1024
  until the magnitude is below 1024 or the units run out (0 for KB up to 3 for TB).
\<close>

definition unit_index :: "int \<Rightarrow> nat" where
  "unit_index n =
     (if \<bar>n\<bar> < 1024 ^ 2 then 0 else if \<bar>n\<bar> < 1024 ^ 3 then 1 else if \<bar>n\<bar> < 1024 ^ 4 then 2 else 3)"

text \<open>Two records with the extension \<^verbatim>\<open>png\<close>: one marked as having no video track, one
  with no codec or descriptor hint at all.\<close>

definition no_video_png :: raw_format where
  "no_video_png = empty_format\<lparr>url := Some ''https://a/cover.png'', vcodec := Some ''none'', ext := Some ''png''\<rparr>"

definition plain_png :: raw_format where
  "plain_png = empty_format\<lparr>url := Some ''https://a/cover.png'', ext := Some ''png''\<rparr>"

text \<open>The record of the specification's scheme-filter property.\<close>

definition ftp_format :: raw_format where
  "ftp_format = empty_format\<lparr>url := Some ''ftp://host/f''\<rparr>"


definition blank_note :: raw_format where
  "blank_note = empty_format\<lparr>url := Some ''https://a/v'', format_note := Some '' ''\<rparr>"


text \<open>
  The two probing callbacks differ only in the function that fetches the length; the
  properties of the size resolver are proved for the callback with that function as a
  parameter. \<open>resolved\<close> is what a callback makes of one candidate.
\<close>

definition probe_with :: "(string \<Rightarrow> int js_num option \<times> event list) \<Rightarrow>
    'a candidate_scheme list \<times> event list \<Rightarrow> nat \<Rightarrow> 'a candidate_scheme list \<times> event list" where
  "probe_with gcl st i =
     (case st of (fs, tr) \<Rightarrow>
        (case gcl (c_url (fs ! i)) of (len, evs) \<Rightarrow>
           (if truthy_len len then fs[i := (fs ! i)\<lparr>c_filesize := Some (len_value len)\<rparr>] else fs,
            tr @ evs)))"

definition resolved :: "(string \<Rightarrow> int js_num option \<times> event list) \<Rightarrow> 'a candidate_scheme \<Rightarrow> 'a candidate_scheme" where
  "resolved gcl f =
     (if truthy_len (fst (gcl (c_url f))) then f\<lparr>c_filesize := Some (len_value (fst (gcl (c_url f))))\<rparr> else f)"

text \<open>
  A probe fails at every tier: the \<^verbatim>\<open>HEAD\<close> request throws or its answer has no
  \<^verbatim>\<open>content-length\<close>; in \<^verbatim>\<open>part_000\<close>, where a thrown \<^verbatim>\<open>HEAD\<close> is followed by a ranged
  \<^verbatim>\<open>GET\<close>, that request throws too or its answer has neither \<^verbatim>\<open>content-range\<close> nor
  \<^verbatim>\<open>content-length\<close>.
\<close>

definition all_tiers_fail :: "'j world \<Rightarrow> string \<Rightarrow> bool" where
  "all_tiers_fail w u =
     (case axios_head w u of
        Inl e \<Rightarrow> True
      | Inr resp \<Rightarrow> \<not> truthy_str (content_length resp))"

definition all_tiers_fail_p0 :: "'j world \<Rightarrow> string \<Rightarrow> bool" where
  "all_tiers_fail_p0 w u =
     (case axios_head w u of
        Inr resp \<Rightarrow> \<not> truthy_str (content_length resp)
      | Inl e \<Rightarrow>
          (case axios_get w u of
             Inl err \<Rightarrow> True
           | Inr resp \<Rightarrow> \<not> truthy_str (content_range resp) \<and> \<not> truthy_str (content_length resp)))"

text \<open>
  Conditions on a request and its collaborators, as the handlers test them: the request
  carries an address that parses; the extractor ran and its output parsed to metadata;
  what the pipeline then answers; and what the cache returned for the request's key.
\<close>

definition valid_request :: "'j world \<Rightarrow> request \<Rightarrow> bool" where
  "valid_request w req = (truthy_str (query_url req) \<and> new_URL w (the (query_url req)) \<noteq> None)"

definition cacheKey_of :: "request \<Rightarrow> string" where
  "cacheKey_of req = cache_key (the (query_url req))"

definition extract_meta :: "'j world \<Rightarrow> request \<Rightarrow> meta option" where
  "extract_meta w req =
     (case execFileAsync w ''./yt-dlp'' [''-j'', ''--no-warnings'', the (query_url req)] of
        Inl e \<Rightarrow> None
      | Inr stdout \<Rightarrow> (case parse_meta w stdout of Inr (Some m) \<Rightarrow> Some m | _ \<Rightarrow> None))"

definition extract_meta_p0 :: "'j world \<Rightarrow> request \<Rightarrow> meta option" where
  "extract_meta_p0 w req =
     (case execFileAsync w ''yt-dlp'' [''-j'', ''--no-warnings'', the (query_url req)] of
        Inl e \<Rightarrow> None
      | Inr stdout \<Rightarrow> (case parse_meta_p0 w stdout of Inr (Some m) \<Rightarrow> Some m | _ \<Rightarrow> None))"

definition raw_formats_of :: "meta \<Rightarrow> raw_format list" where
  "raw_formats_of m = (case meta_formats m of Some fs \<Rightarrow> fs | None \<Rightarrow> [])"

definition payload_of :: "'j world \<Rightarrow> meta \<Rightarrow> mapped list" where
  "payload_of w m =
     map to_mapped (fst (fill_sizes w (normalizeAndFilterFormats (new_URL w) (raw_formats_of m))))"

definition payload_of_p0 :: "'j world \<Rightarrow> meta \<Rightarrow> mapped list" where
  "payload_of_p0 w m =
     array_sort compare_mapped
       (map to_mapped_p0 (fst (fill_sizes_p0 w (normalizeAndFilterFormats_p0 (new_URL w) (raw_formats_of m)))))"

definition cache_miss :: "'j world \<Rightarrow> request \<Rightarrow> bool" where
  "cache_miss w req =
     (case redis_get w (cacheKey_of req) of Inr cached \<Rightarrow> \<not> truthy_str cached | Inl e \<Rightarrow> False)"

definition cache_hit :: "'j world \<Rightarrow> request \<Rightarrow> bool" where
  "cache_hit w req =
     (case redis_get w (cacheKey_of req) of
        Inr cached \<Rightarrow>
          truthy_str cached \<and> (case JSON_parse_cached w (the cached) of Inr v \<Rightarrow> True | Inl e \<Rightarrow> False)
      | Inl e \<Rightarrow> False)"

text \<open>
  A sample run: the extractor reports the formats \<open>fs\<close>, the cache is empty and works,
  every size probe times out; no API key and no cache are configured; the request asks
  for one page.
\<close>

definition quiet_world :: "raw_format list \<Rightarrow> unit world" where
  "quiet_world fs =
     \<lparr> new_URL = sample_URL,
       JSON_parse = (\<lambda>s. Inr (Some \<lparr>meta_formats = Some fs\<rparr>)),
       JSON_parse_cached = (\<lambda>s. Inr ()),
       JSON_stringify = (\<lambda>p. ''payload''),
       redis_get = (\<lambda>k. Inr None),
       redis_set = (\<lambda>k v t. Inr ()),
       execFileAsync = (\<lambda>p a. Inr ''{}''),
       axios_head = (\<lambda>u. Inl ''timeout''),
       axios_get = (\<lambda>u. Inl ''timeout'') \<rparr>"

definition plain_env :: process_env where
  "plain_env = \<lparr> env_API_KEY = None, env_REDIS_URL = None \<rparr>"

definition page_request :: request where
  "page_request = \<lparr> query_url = Some ''https://a/page'', header_x_api_key = None, query_apikey = None \<rparr>"

text \<open>
  More sample settings: a configured cache, a configured API key, a cache store that
  refuses every call, and a request without the \<^verbatim>\<open>url\<close> parameter.
\<close>

definition caching_env :: process_env where
  "caching_env = \<lparr> env_API_KEY = None, env_REDIS_URL = Some ''redis://cache:6379'' \<rparr>"

definition keyed_env :: process_env where
  "keyed_env = \<lparr> env_API_KEY = Some ''secret'', env_REDIS_URL = None \<rparr>"

definition broken_cache_world :: "raw_format list \<Rightarrow> unit world" where
  "broken_cache_world fs =
     (quiet_world fs)\<lparr> redis_get := (\<lambda>k. Inl ''ECONNREFUSED''), redis_set := (\<lambda>k v t. Inl ''ECONNREFUSED'') \<rparr>"

definition failing_set_world :: "raw_format list \<Rightarrow> unit world" where
  "failing_set_world fs = (quiet_world fs)\<lparr> redis_set := (\<lambda>k v t. Inl ''ECONNREFUSED'') \<rparr>"

definition no_url_request :: request where
  "no_url_request = \<lparr> query_url = None, header_x_api_key = None, query_apikey = None \<rparr>"

text \<open>
  Seven records with distinct addresses, each declaring the size 0, and a world whose
  \<^verbatim>\<open>HEAD\<close> answers all carry \<^verbatim>\<open>content-length: 0\<close>.
\<close>

definition zero_sized :: "string \<Rightarrow> raw_format" where
  "zero_sized u = empty_format\<lparr>url := Some u, filesize := Some 0\<rparr>"

definition seven_zero :: "raw_format list" where
  "seven_zero =
     map zero_sized [''https://a/1'', ''https://a/2'', ''https://a/3'', ''https://a/4'',
                     ''https://a/5'', ''https://a/6'', ''https://a/7'']"

definition zero_length_world :: "raw_format list \<Rightarrow> unit world" where
  "zero_length_world fs =
     (quiet_world fs)\<lparr> axios_head := (\<lambda>u. Inr \<lparr>content_length = Some ''0'', content_range = None\<rparr>) \<rparr>"

text \<open>A world whose \<^verbatim>\<open>HEAD\<close> answers all carry \<^verbatim>\<open>content-length: 2048\<close>.\<close>

definition sized_world :: "raw_format list \<Rightarrow> unit world" where
  "sized_world fs =
     (quiet_world fs)\<lparr> axios_head := (\<lambda>u. Inr \<lparr>content_length = Some ''2048'', content_range = None\<rparr>) \<rparr>"

text \<open>Two videos with declared sizes: one mebibyte first, then two kibibytes.\<close>

definition big_and_small :: "raw_format list" where
  "big_and_small =
     [empty_format\<lparr>url := Some ''https://a/big.mp4'', filesize := Some 1048576\<rparr>,
      empty_format\<lparr>url := Some ''https://a/small.mp4'', filesize := Some 2048\<rparr>]"

text \<open>
  The ordering the comparator of \<^verbatim>\<open>part_000\<close> induces: the rank of the type, then the
  number \<^verbatim>\<open>parseFloat\<close> reads off the displayed size, larger first.
\<close>

definition type_rank :: "media_type \<Rightarrow> nat" where
  "type_rank t = (case t of Video \<Rightarrow> 0 | Audio \<Rightarrow> 1 | Image \<Rightarrow> 2)"

definition mapped_key :: "mapped \<Rightarrow> nat \<times> rat" where
  "mapped_key m = (type_rank (m_type m), - size_or_0 (m_size m))"

section \<open>Verified properties\<close>

subsection \<open>The common loop\<close>

lemma url_keyedD:
  assumes "url_keyed ok mk"
  shows "c_url (mk h) = the (url h)" and "ok h \<Longrightarrow> url h \<noteq> None"
    and "url h = url g \<Longrightarrow> ok h = ok g"
  using assms unfolding url_keyed_def by blast+

lemma dedup_loop_distinct:
  assumes "url_keyed ok mk"
  shows "distinct (map c_url out) \<Longrightarrow> c_url ` set out \<subseteq> seen \<Longrightarrow>
   distinct (map c_url (dedup_loop ok mk fs out seen))"
proof (induction fs arbitrary: out seen)
  case Nil
  then show ?case by simp
next
  case (Cons f fs)
  have key: "c_url (mk f) = the (url f)" by (rule url_keyedD(1)[OF assms])
  show ?case
  proof (cases "ok f \<and> the (url f) \<notin> seen")
    case True
    have "distinct (map c_url (out @ [mk f]))"
      using Cons.prems True key by auto
    moreover have "c_url ` set (out @ [mk f]) \<subseteq> insert (the (url f)) seen"
      using Cons.prems key by auto
    ultimately have "distinct (map c_url (dedup_loop ok mk fs (out @ [mk f]) (insert (the (url f)) seen)))"
      by (rule Cons.IH)
    with True show ?thesis by simp
  next
    case False
    with Cons.IH[OF Cons.prems] show ?thesis by auto
  qed
qed

lemma dedup_loop_mono: "x \<in> set out \<Longrightarrow> x \<in> set (dedup_loop ok mk fs out seen)"
  by (induction fs arbitrary: out seen) auto

lemma dedup_loop_first:
  "url_keyed ok mk \<Longrightarrow> c \<in> set (dedup_loop ok mk fs out seen) \<Longrightarrow>
   c \<in> set out \<or> (c_url c \<notin> seen \<and>
     (\<exists>f. find (\<lambda>g. url g = Some (c_url c)) fs = Some f \<and> ok f \<and> c = mk f))"
proof (induction fs arbitrary: out seen)
  case Nil
  then show ?case by simp
next
  case (Cons f fs)
  have key: "\<And>h. c_url (mk h) = the (url h)" and some: "\<And>h. ok h \<Longrightarrow> url h \<noteq> None"
    and same: "\<And>h g. url h = url g \<Longrightarrow> ok h = ok g"
    using url_keyedD[OF Cons.prems(1)] by blast+
  consider (bad) "\<not> ok f" | (dup) "ok f" "the (url f) \<in> seen" | (new) "ok f" "the (url f) \<notin> seen"
    by blast
  then show ?case
  proof cases
    case bad
    with Cons.prems have "c \<in> set (dedup_loop ok mk fs out seen)" by simp
    from Cons.IH[OF Cons.prems(1) this] show ?thesis
    proof
      assume "c \<in> set out" then show ?thesis by simp
    next
      assume a: "c_url c \<notin> seen \<and> (\<exists>g. find (\<lambda>g. url g = Some (c_url c)) fs = Some g \<and> ok g \<and> c = mk g)"
      then obtain g where g: "find (\<lambda>g. url g = Some (c_url c)) fs = Some g" "ok g" "c = mk g" by blast
      have "url g = Some (c_url c)" using g(1) by (auto simp: find_Some_iff)
      with bad g(2) same[of f g] have "url f \<noteq> Some (c_url c)" by auto
      with a g show ?thesis by auto
    qed
  next
    case dup
    with Cons.prems have "c \<in> set (dedup_loop ok mk fs out seen)" by simp
    from Cons.IH[OF Cons.prems(1) this] show ?thesis
    proof
      assume "c \<in> set out" then show ?thesis by simp
    next
      assume a: "c_url c \<notin> seen \<and> (\<exists>g. find (\<lambda>g. url g = Some (c_url c)) fs = Some g \<and> ok g \<and> c = mk g)"
      with dup have "url f \<noteq> Some (c_url c)" by auto
      with a show ?thesis by auto
    qed
  next
    case new
    with Cons.prems have "c \<in> set (dedup_loop ok mk fs (out @ [mk f]) (insert (the (url f)) seen))" by simp
    from Cons.IH[OF Cons.prems(1) this] show ?thesis
    proof
      assume "c \<in> set (out @ [mk f])"
      then consider "c \<in> set out" | "c = mk f" by auto
      then show ?thesis
      proof cases
        case 1 then show ?thesis by simp
      next
        case 2
        obtain u where u: "url f = Some u" using some[OF new(1)] by auto
        have cu: "c_url c = u" using key[of f] 2 u by simp
        have "find (\<lambda>g. url g = Some (c_url c)) (f # fs) = Some f" using u cu by simp
        moreover have "c_url c \<notin> seen" using new(2) u cu by simp
        ultimately show ?thesis using new(1) 2 by blast
      qed
    next
      assume a: "c_url c \<notin> insert (the (url f)) seen \<and> (\<exists>g. find (\<lambda>g. url g = Some (c_url c)) fs = Some g \<and> ok g \<and> c = mk g)"
      then have "url f \<noteq> Some (c_url c)" by auto
      with a show ?thesis by auto
    qed
  qed
qed

lemma dedup_loop_complete:
  "url_keyed ok mk \<Longrightarrow> f \<in> set fs \<Longrightarrow> ok f \<Longrightarrow> c_url ` set out \<subseteq> seen \<Longrightarrow>
   the (url f) \<in> seen \<or> the (url f) \<in> c_url ` set (dedup_loop ok mk fs out seen)"
proof (induction fs arbitrary: out seen)
  case Nil
  then show ?case by simp
next
  case (Cons g fs)
  have key: "\<And>h. c_url (mk h) = the (url h)"
    using url_keyedD(1)[OF Cons.prems(1)] by blast
  show ?case
  proof (cases "f = g")
    case True
    show ?thesis
    proof (cases "the (url g) \<in> seen")
      case True with \<open>f = g\<close> show ?thesis by simp
    next
      case False
      have "mk g \<in> set (dedup_loop ok mk fs (out @ [mk g]) (insert (the (url g)) seen))"
        by (rule dedup_loop_mono) simp
      with False Cons.prems(3) \<open>f = g\<close> key[of g] show ?thesis
        by (auto simp: image_iff intro!: bexI[of _ "mk g"])
    qed
  next
    case False
    with Cons.prems have fin: "f \<in> set fs" by simp
    show ?thesis
    proof (cases "ok g \<and> the (url g) \<notin> seen")
      case True
      have "c_url ` set (out @ [mk g]) \<subseteq> insert (the (url g)) seen"
        using Cons.prems(4) key[of g] by auto
      from Cons.IH[OF Cons.prems(1) fin Cons.prems(3) this]
      have ih: "the (url f) \<in> insert (the (url g)) seen \<or>
                the (url f) \<in> c_url ` set (dedup_loop ok mk fs (out @ [mk g]) (insert (the (url g)) seen))" .
      have eq: "dedup_loop ok mk (g # fs) out seen =
                dedup_loop ok mk fs (out @ [mk g]) (insert (the (url g)) seen)"
        using True by simp
      have "mk g \<in> set (dedup_loop ok mk fs (out @ [mk g]) (insert (the (url g)) seen))"
        by (rule dedup_loop_mono) simp
      then have "the (url g) \<in> c_url ` set (dedup_loop ok mk fs (out @ [mk g]) (insert (the (url g)) seen))"
        using key[of g] by (metis image_eqI)
      with ih show ?thesis unfolding eq by auto
    next
      case False
      with Cons.IH[OF Cons.prems(1) fin Cons.prems(3) Cons.prems(4)] show ?thesis by auto
    qed
  qed
qed

lemma normalize_loop_eq:
  "normalize_loop URL fs out seen = dedup_loop (url_ok URL) make_candidate fs out seen"
  by (induction fs arbitrary: out seen) auto

lemma normalize_loop_p0_eq:
  "normalize_loop_p0 URL fs out seen = dedup_loop (url_ok URL) make_candidate_p0 fs out seen"
  by (induction fs arbitrary: out seen) auto

lemma normalize_loop_p1_eq:
  "normalize_loop_p1 URL fs out seen = dedup_loop (url_ok_p1 URL) make_candidate_p1 fs out seen"
  by (induction fs arbitrary: out seen) auto

lemma url_keyed_server: "url_keyed (url_ok URL) make_candidate"
  by (auto simp: url_keyed_def url_ok_def make_candidate_def truthy_str_def split: option.splits)

lemma url_keyed_p0: "url_keyed (url_ok URL) make_candidate_p0"
  by (auto simp: url_keyed_def url_ok_def make_candidate_p0_def truthy_str_def split: option.splits)

lemma url_keyed_p1: "url_keyed (url_ok_p1 URL) make_candidate_p1"
  by (auto simp: url_keyed_def url_ok_p1_def make_candidate_p1_def truthy_str_def split: option.splits)

lemma dedup_loop_props:
  assumes "url_keyed ok mk"
  shows "distinct (map c_url (dedup_loop ok mk rs [] {}))"
    and "\<forall>c \<in> set (dedup_loop ok mk rs [] {}).
           \<exists>f. find (\<lambda>g. url g = Some (c_url c)) rs = Some f \<and> ok f \<and> c = mk f"
    and "\<forall>f \<in> set rs. ok f \<longrightarrow> the (url f) \<in> c_url ` set (dedup_loop ok mk rs [] {})"
proof -
  show "distinct (map c_url (dedup_loop ok mk rs [] {}))"
    using dedup_loop_distinct[OF assms, of "[]" "{}" rs] by simp
  show "\<forall>c \<in> set (dedup_loop ok mk rs [] {}).
           \<exists>f. find (\<lambda>g. url g = Some (c_url c)) rs = Some f \<and> ok f \<and> c = mk f"
    using dedup_loop_first[OF assms, of _ rs "[]" "{}"] by auto
  show "\<forall>f \<in> set rs. ok f \<longrightarrow> the (url f) \<in> c_url ` set (dedup_loop ok mk rs [] {})"
    using dedup_loop_complete[OF assms, of _ rs "[]" "{}"] by auto
qed

subsection \<open>Deduplication by address\<close>

text \<open>
  C1. For every list of raw records and each of the three variants of
  \<^verbatim>\<open>normalizeAndFilterFormats\<close>: no two candidates of the output have the same \<open>url\<close>;
  every candidate of the output is the one built from the first record of the input that
  carries its \<open>url\<close>; and every record that passes validation has its \<open>url\<close> in the output.
\<close>

theorem normalize_dedup_first_wins:
  "(distinct (map c_url (normalizeAndFilterFormats URL rs)) \<and>
    (\<forall>c \<in> set (normalizeAndFilterFormats URL rs).
       \<exists>f. find (\<lambda>g. url g = Some (c_url c)) rs = Some f \<and> url_ok URL f \<and> c = make_candidate f) \<and>
    (\<forall>f \<in> set rs. url_ok URL f \<longrightarrow> the (url f) \<in> c_url ` set (normalizeAndFilterFormats URL rs))) \<and>
   (distinct (map c_url (normalizeAndFilterFormats_p0 URL rs)) \<and>
    (\<forall>c \<in> set (normalizeAndFilterFormats_p0 URL rs).
       \<exists>f. find (\<lambda>g. url g = Some (c_url c)) rs = Some f \<and> url_ok URL f \<and> c = make_candidate_p0 f) \<and>
    (\<forall>f \<in> set rs. url_ok URL f \<longrightarrow> the (url f) \<in> c_url ` set (normalizeAndFilterFormats_p0 URL rs))) \<and>
   (distinct (map c_url (normalizeAndFilterFormats_p1 URL rs)) \<and>
    (\<forall>c \<in> set (normalizeAndFilterFormats_p1 URL rs).
       \<exists>f. find (\<lambda>g. url g = Some (c_url c)) rs = Some f \<and> url_ok_p1 URL f \<and> c = make_candidate_p1 f) \<and>
    (\<forall>f \<in> set rs. url_ok_p1 URL f \<longrightarrow> the (url f) \<in> c_url ` set (normalizeAndFilterFormats_p1 URL rs)))"
  unfolding normalizeAndFilterFormats_def normalizeAndFilterFormats_p0_def
    normalizeAndFilterFormats_p1_def normalize_loop_eq normalize_loop_p0_eq normalize_loop_p1_eq
  using dedup_loop_props[OF url_keyed_server[of URL], of rs]
    dedup_loop_props[OF url_keyed_p0[of URL], of rs]
    dedup_loop_props[OF url_keyed_p1[of URL], of rs]
  by blast

lemma sample_URL_https: "sample_URL ''https://a/x.mp4'' = Some ''https:''"
  by (simp add: sample_URL_def is_lower_def is_upper_def is_digit_def toLowerCase_def)

lemma sample_duplicates_ok:
  "url_ok sample_URL (hd sample_duplicates)" "url_ok_p1 sample_URL (hd sample_duplicates)"
  "hd sample_duplicates \<in> set sample_duplicates"
  by (simp_all add: sample_duplicates_def url_ok_def url_ok_p1_def truthy_str_def sample_URL_https empty_format_def)

lemma sample_duplicates_normalized:
  "normalizeAndFilterFormats sample_URL sample_duplicates = [make_candidate (hd sample_duplicates)]"
  "normalizeAndFilterFormats_p0 sample_URL sample_duplicates = [make_candidate_p0 (hd sample_duplicates)]"
  "normalizeAndFilterFormats_p1 sample_URL sample_duplicates = [make_candidate_p1 (hd sample_duplicates)]"
  by (simp_all add: normalizeAndFilterFormats_def normalizeAndFilterFormats_p0_def
      normalizeAndFilterFormats_p1_def sample_duplicates_def url_ok_def url_ok_p1_def truthy_str_def
      sample_URL_https empty_format_def)

theorem normalize_dedup_first_wins_witness:
  "(make_candidate (hd sample_duplicates) \<in> set (normalizeAndFilterFormats sample_URL sample_duplicates) \<and>
    (\<exists>f. find (\<lambda>g. url g = Some (c_url (make_candidate (hd sample_duplicates)))) sample_duplicates = Some f \<and>
         url_ok sample_URL f \<and> make_candidate (hd sample_duplicates) = make_candidate f)) \<and>
   (make_candidate_p0 (hd sample_duplicates) \<in> set (normalizeAndFilterFormats_p0 sample_URL sample_duplicates) \<and>
    (\<exists>f. find (\<lambda>g. url g = Some (c_url (make_candidate_p0 (hd sample_duplicates)))) sample_duplicates = Some f \<and>
         url_ok sample_URL f \<and> make_candidate_p0 (hd sample_duplicates) = make_candidate_p0 f)) \<and>
   (make_candidate_p1 (hd sample_duplicates) \<in> set (normalizeAndFilterFormats_p1 sample_URL sample_duplicates) \<and>
    (\<exists>f. find (\<lambda>g. url g = Some (c_url (make_candidate_p1 (hd sample_duplicates)))) sample_duplicates = Some f \<and>
         url_ok_p1 sample_URL f \<and> make_candidate_p1 (hd sample_duplicates) = make_candidate_p1 f)) \<and>
   hd sample_duplicates \<in> set sample_duplicates \<and> url_ok sample_URL (hd sample_duplicates) \<and>
   url_ok_p1 sample_URL (hd sample_duplicates) \<and>
   the (url (hd sample_duplicates)) \<in> c_url ` set (normalizeAndFilterFormats sample_URL sample_duplicates) \<and>
   the (url (hd sample_duplicates)) \<in> c_url ` set (normalizeAndFilterFormats_p0 sample_URL sample_duplicates) \<and>
   the (url (hd sample_duplicates)) \<in> c_url ` set (normalizeAndFilterFormats_p1 sample_URL sample_duplicates)"
proof -
  have m: "make_candidate (hd sample_duplicates) \<in> set (normalizeAndFilterFormats sample_URL sample_duplicates)"
    "make_candidate_p0 (hd sample_duplicates) \<in> set (normalizeAndFilterFormats_p0 sample_URL sample_duplicates)"
    "make_candidate_p1 (hd sample_duplicates) \<in> set (normalizeAndFilterFormats_p1 sample_URL sample_duplicates)"
    by (simp_all add: sample_duplicates_normalized)
  show ?thesis
    using normalize_dedup_first_wins[of sample_URL sample_duplicates] m sample_duplicates_ok
    by blast
qed

subsection \<open>Human-readable sizes\<close>

lemma abs_div_ge: "(\<bar>(of_int n :: rat) / 1024 ^ k\<bar> \<ge> 1024) = (\<bar>n\<bar> \<ge> 1024 ^ (k + 1))"
proof -
  have "\<bar>(of_int n :: rat) / 1024 ^ k\<bar> = of_int \<bar>n\<bar> / 1024 ^ k" by simp
  moreover have "((1024::rat) \<le> of_int \<bar>n\<bar> / 1024 ^ k) = (1024 * 1024 ^ k \<le> (of_int \<bar>n\<bar> :: rat))"
    by (simp add: pos_le_divide_eq)
  moreover have "(1024 * 1024 ^ k \<le> (of_int \<bar>n\<bar> :: rat)) = ((of_int (1024 ^ (k + 1)) :: rat) \<le> of_int \<bar>n\<bar>)"
    by simp
  moreover have "((of_int (1024 ^ (k + 1)) :: rat) \<le> of_int \<bar>n\<bar>) = (1024 ^ (k + 1) \<le> \<bar>n\<bar>)"
    by (rule of_int_le_iff)
  ultimately show ?thesis by simp
qed

lemma divide_loop_from_start:
  "divide_loop (of_int n) (- 1) = (of_int n / 1024 ^ (unit_index n + 1), int (unit_index n))"
proof -
  have s1: "\<bar>(of_int n :: rat) / 1024\<bar> \<ge> 1024 \<longleftrightarrow> \<bar>n\<bar> \<ge> 1024 ^ 2" using abs_div_ge[of n 1] by simp
  have s2: "\<bar>(of_int n :: rat) / 1024 / 1024\<bar> \<ge> 1024 \<longleftrightarrow> \<bar>n\<bar> \<ge> 1024 ^ 3" using abs_div_ge[of n 2] by simp
  have s3: "\<bar>(of_int n :: rat) / 1024 / 1024 / 1024\<bar> \<ge> 1024 \<longleftrightarrow> \<bar>n\<bar> \<ge> 1024 ^ 4" using abs_div_ge[of n 3] by simp
  show ?thesis
    apply (subst divide_loop.simps)
    apply (subst divide_loop.simps)
    apply (subst divide_loop.simps)
    apply (subst divide_loop.simps)
    using s1 s2 s3
    apply (simp add: thresh_def units_def unit_index_def)
    done
qed

lemma humanFileSize_large:
  "\<bar>n\<bar> \<ge> 1024 \<Longrightarrow> humanFileSize (Some n) = toFixed1 (of_int n / 1024 ^ (unit_index n + 1)) @ '' '' @ units ! unit_index n"
  by (auto simp: humanFileSize_def truthy_num_def thresh_def divide_loop_from_start)

lemma humanFileSize_small:
  "n \<noteq> 0 \<Longrightarrow> \<bar>n\<bar> < 1024 \<Longrightarrow> humanFileSize (Some n) = num_to_string n @ '' B''"
  by (simp add: humanFileSize_def truthy_num_def thresh_def)

lemma digits_nonempty: "digits n \<noteq> []"
  by (subst digits.simps) simp

lemma is_digit_char_of: "(k::nat) < 10 \<Longrightarrow> is_digit (char_of (48 + k))"
  by (simp add: is_digit_def)

lemma digits_all_digit: "list_all is_digit (digits n)"
proof (induction n rule: digits.induct)
  case (1 n)
  show ?case
  proof (cases "n < 10")
    case True
    then show ?thesis by (subst digits.simps) (simp add: is_digit_char_of)
  next
    case False
    with 1 have "list_all is_digit (digits (n div 10))" by simp
    moreover have "is_digit (char_of (48 + n mod 10))" by (rule is_digit_char_of) simp
    ultimately show ?thesis using False by (subst digits.simps) simp
  qed
qed

lemma digits_value_snoc: "digits_value (ds @ [c]) = 10 * digits_value ds + ((of_char c :: nat) - 48)"
  by (simp add: digits_value_def)

lemma digits_value_digits: "digits_value (digits n) = n"
proof (induction n rule: digits.induct)
  case (1 n)
  show ?case
  proof (cases "n < 10")
    case True
    then show ?thesis by (subst digits.simps) (simp add: digits_value_def)
  next
    case False
    with 1 have ih: "digits_value (digits (n div 10)) = n div 10" by simp
    have "(of_char (char_of (48 + n mod 10)) :: nat) = 48 + n mod 10" by simp
    with ih False show ?thesis by (subst digits.simps) (simp add: digits_value_snoc)
  qed
qed

lemma digits_single: "(k::nat) < 10 \<Longrightarrow> digits k = [char_of (48 + k)]"
  by (subst digits.simps) simp

lemma toFixed1_shape:
  "\<exists>ip d. toFixed1 x = (if x < 0 then ''-'' else []) @ ip @ [CHR ''.'', d] \<and>
      ip \<noteq> [] \<and> list_all is_digit ip \<and> is_digit d \<and>
      10 * digits_value ip + digits_value [d] = nat \<lfloor>\<bar>x\<bar> * 10 + 1 / 2\<rfloor>"
proof -
  define n where "n = nat \<lfloor>\<bar>x\<bar> * 10 + 1 / 2\<rfloor>"
  have d: "digits (n mod 10) = [char_of (48 + n mod 10)]" by (rule digits_single) simp
  have "toFixed1 x = (if x < 0 then ''-'' else []) @ digits (n div 10) @ [CHR ''.'', char_of (48 + n mod 10)]"
    by (simp add: toFixed1_def n_def[symmetric] d Let_def)
  moreover have "digits (n div 10) \<noteq> []" by (rule digits_nonempty)
  moreover have "list_all is_digit (digits (n div 10))" by (rule digits_all_digit)
  moreover have "is_digit (char_of (48 + n mod 10))" by (rule is_digit_char_of) simp
  moreover have "10 * digits_value (digits (n div 10)) + digits_value [char_of (48 + n mod 10)] = n"
    by (simp add: digits_value_digits) (simp add: digits_value_def)
  ultimately show ?thesis unfolding n_def by blast
qed

lemma humanFileSize_table:
  "humanFileSize (Some 0) = ''Unknown''" "humanFileSize (Some 1023) = ''1023 B''"
  "humanFileSize (Some 1024) = ''1.0 KB''" "humanFileSize (Some 1536) = ''1.5 KB''"
  "humanFileSize None = ''Unknown''"
  by code_simp+

text \<open>
  C2, as stated, fails at zero: \<^verbatim>\<open>!bytes\<close> holds for \<^verbatim>\<open>0\<close>, so \<^verbatim>\<open>humanFileSize(0)\<close>
  is \<^verbatim>\<open>"Unknown"\<close> and not \<^verbatim>\<open>"0 B"\<close>.
\<close>

lemma safe_quotient_bound:
  assumes "safe_integer n"
  shows "\<bar>of_int n / 1024 ^ (unit_index n + 1) :: rat\<bar> \<le> 2 ^ 43"
proof -
  have n: "\<bar>n\<bar> \<le> 2 ^ 53" using assms by (simp add: safe_integer_def)
  have "\<bar>of_int n / 1024 ^ (unit_index n + 1) :: rat\<bar> = of_int \<bar>n\<bar> / 1024 ^ (unit_index n + 1)"
    by simp
  also have "\<dots> \<le> of_int \<bar>n\<bar> / 1024"
    by (rule divide_left_mono) (simp_all add: self_le_power)
  also have "\<dots> \<le> of_int (2 ^ 53) / 1024"
  proof (rule divide_right_mono)
    show "(of_int \<bar>n\<bar> :: rat) \<le> of_int (2 ^ 53)" using n by (simp only: of_int_le_iff)
    show "(0::rat) \<le> 1024" by simp
  qed
  also have "\<dots> = (2 ^ 43 :: rat)" by simp
  finally show ?thesis .
qed

theorem humanFileSize_zero_counterexample:
  "humanFileSize (Some 0) = ''Unknown'' \<and> humanFileSize (Some 0) \<noteq> ''0 B''"
  by (simp add: humanFileSize_def truthy_num_def)

text \<open>
  C2, amended. \<^verbatim>\<open>humanFileSize\<close> gives \<^verbatim>\<open>"Unknown"\<close> for \<^verbatim>\<open>null\<close> and for \<^verbatim>\<open>0\<close>,
  \<^verbatim>\<open>"1023 B"\<close> for 1023, \<^verbatim>\<open>"1.0 KB"\<close> for 1024 and \<^verbatim>\<open>"1.5 KB"\<close> for 1536. In general, for
  an integer \<open>n\<close> other than zero: when \<open>\<bar>n\<bar> < 1024\<close> the result is the integer followed by
  \<^verbatim>\<open>" B"\<close>; otherwise, for a safe integer (magnitude at most \<open>2\<^sup>5\<^sup>3\<close>, which a double holds
  exactly), it is \<open>n\<close> divided by 1024 as often as the unit says, written by
  \<^verbatim>\<open>toFixed(1)\<close> (a sign, digits, a point and one digit, the nearest tenth), a space, and
  the unit reached by repeated division through KB, MB, GB, TB.
\<close>

theorem humanFileSize_boundaries:
  "humanFileSize None = ''Unknown'' \<and>
   humanFileSize (Some 0) = ''Unknown'' \<and>
   humanFileSize (Some 1023) = ''1023 B'' \<and>
   humanFileSize (Some 1024) = ''1.0 KB'' \<and>
   humanFileSize (Some 1536) = ''1.5 KB'' \<and>
   (n \<noteq> 0 \<and> \<bar>n\<bar> < 1024 \<longrightarrow> humanFileSize (Some n) = num_to_string n @ '' B'') \<and>
   (\<bar>n\<bar> \<ge> 1024 \<and> safe_integer n \<longrightarrow>
      \<bar>of_int n / 1024 ^ (unit_index n + 1) :: rat\<bar> \<le> 2 ^ 43 \<and>
      humanFileSize (Some n) = toFixed1 (of_int n / 1024 ^ (unit_index n + 1)) @ '' '' @ units ! unit_index n \<and>
      (\<exists>ip d. toFixed1 (of_int n / 1024 ^ (unit_index n + 1)) = (if n < 0 then ''-'' else []) @ ip @ [CHR ''.'', d] \<and>
         ip \<noteq> [] \<and> list_all is_digit ip \<and> is_digit d \<and>
         10 * digits_value ip + digits_value [d] =
           nat \<lfloor>\<bar>of_int n / 1024 ^ (unit_index n + 1) :: rat\<bar> * 10 + 1 / 2\<rfloor>))"
proof -
  have neg: "((of_int n :: rat) / 1024 ^ (unit_index n + 1) < 0) = (n < 0)"
    by (simp add: divide_less_0_iff)
  show ?thesis
    using humanFileSize_table humanFileSize_small[of n] humanFileSize_large[of n]
      toFixed1_shape[of "of_int n / 1024 ^ (unit_index n + 1)"] safe_quotient_bound[of n]
    unfolding neg by blast
qed

theorem humanFileSize_boundaries_witness:
  "(1023::int) \<noteq> 0 \<and> \<bar>1023::int\<bar> < 1024 \<and> humanFileSize (Some 1023) = num_to_string 1023 @ '' B'' \<and>
   \<bar>1536::int\<bar> \<ge> 1024 \<and> safe_integer 1536 \<and>
   humanFileSize (Some 1536) = toFixed1 (of_int 1536 / 1024 ^ (unit_index 1536 + 1)) @ '' '' @ units ! unit_index 1536 \<and>
   unit_index 1536 = 0 \<and> units ! unit_index 1536 = ''KB''"
proof -
  have h1: "(1023::int) \<noteq> 0 \<and> \<bar>1023::int\<bar> < 1024" by simp
  have h2: "\<bar>1536::int\<bar> \<ge> 1024 \<and> safe_integer 1536" by (simp add: safe_integer_def)
  have u: "unit_index 1536 = 0 \<and> units ! unit_index 1536 = ''KB''"
    by (simp add: unit_index_def units_def)
  from humanFileSize_boundaries[of 1023] h1
  have "humanFileSize (Some 1023) = num_to_string 1023 @ '' B''" by blast
  moreover from humanFileSize_boundaries[of 1536] h2
  have "humanFileSize (Some 1536) =
        toFixed1 (of_int 1536 / 1024 ^ (unit_index 1536 + 1)) @ '' '' @ units ! unit_index 1536"
    by blast
  ultimately show ?thesis using h1 h2 u by blast
qed

subsection \<open>Classification\<close>

lemma str_includes_sublist: "str_includes s pat = sublist pat s"
  by (induction s) (auto simp: sublist_Cons_right)

lemma sample_URL_cover: "sample_URL ''https://a/cover.png'' = Some ''https:''"
  by (simp add: sample_URL_def is_lower_def is_upper_def is_digit_def toLowerCase_def)

text \<open>
  C3, as stated, fails. In \<^verbatim>\<open>part_000\<close> the test on the extension comes last and
  overrides the codec marker: a record with \<^verbatim>\<open>vcodec: "none"\<close> and extension \<^verbatim>\<open>png\<close> is
  an image, not audio. In \<^verbatim>\<open>server.js\<close> there is no image class: a record with extension
  \<^verbatim>\<open>png\<close> and no hints is a video.
\<close>

theorem classification_counterexample:
  "vcodec no_video_png = Some ''none'' \<and>
   map c_type (normalizeAndFilterFormats_p0 sample_URL [no_video_png]) = [Image] \<and>
   ext plain_png = Some ''png'' \<and> vcodec plain_png = None \<and> acodec plain_png = None \<and> format plain_png = None \<and>
   map c_type (normalizeAndFilterFormats sample_URL [plain_png]) = [Video]"
  by (simp add: normalizeAndFilterFormats_p0_def normalizeAndFilterFormats_def no_video_png_def plain_png_def
      empty_format_def url_ok_def truthy_str_def sample_URL_cover make_candidate_p0_def make_candidate_def
      classify_p0_def classify_def toLowerCase_def is_upper_def)

lemma classify_p0_rule:
  "classify_p0 f =
     (if truthy_str (ext f) \<and> toLowerCase (the (ext f)) \<in> {''jpg'', ''jpeg'', ''png'', ''webp'', ''gif''}
      then Image
      else if vcodec f = Some ''none'' \<or> (truthy_str (acodec f) \<and> \<not> truthy_str (vcodec f)) \<or>
              (truthy_str (format f) \<and> sublist ''audio'' (toLowerCase (the (format f))))
      then Audio
      else Video)"
  by (simp add: classify_p0_def test_audio_i_def str_includes_sublist Let_def)

lemma classify_rule:
  "classify f =
     (if vcodec f = Some ''none'' \<or> (truthy_str (acodec f) \<and> \<not> truthy_str (vcodec f)) \<or>
         (truthy_str (format f) \<and> sublist ''audio'' (the (format f)))
      then Audio
      else Video)"
  by (cases "format f") (auto simp: classify_def truthy_str_def str_includes_sublist Let_def)

lemma classify_p1_rule:
  "classify_p1 f =
     (if vcodec f = Some ''none'' \<or> (truthy_str (acodec f) \<and> \<not> truthy_str (vcodec f))
      then Audio
      else Video)"
  by (simp add: classify_p1_def Let_def)

text \<open>
  C3, amended. For every raw record, the type of the candidate built from it is decided
  by the last rule that matches. In \<^verbatim>\<open>part_000\<close>: an extension in the still-image set
  (jpg, jpeg, png, webp, gif, in any letter case) gives image whatever the codec markers
  and the descriptor say, so a \<^verbatim>\<open>png\<close> record with no hints is an image; else a
  no-video marker (\<^verbatim>\<open>vcodec\<close> \<^verbatim>\<open>"none"\<close>, or an audio codec with no video codec) or
  \<^verbatim>\<open>audio\<close> in any letter case inside the format descriptor gives audio; else video.
  In \<^verbatim>\<open>server.js\<close> no record is an image: a no-video marker or lower-case \<^verbatim>\<open>audio\<close>
  inside the descriptor gives audio, anything else video; \<^verbatim>\<open>part_001\<close> looks at the
  marker only.
\<close>

theorem classification_rules:
  "c_type (make_candidate_p0 f) =
     (if truthy_str (ext f) \<and> toLowerCase (the (ext f)) \<in> {''jpg'', ''jpeg'', ''png'', ''webp'', ''gif''}
      then Image
      else if vcodec f = Some ''none'' \<or> (truthy_str (acodec f) \<and> \<not> truthy_str (vcodec f)) \<or>
              (truthy_str (format f) \<and> sublist ''audio'' (toLowerCase (the (format f))))
      then Audio
      else Video) \<and>
   c_type (make_candidate f) =
     (if vcodec f = Some ''none'' \<or> (truthy_str (acodec f) \<and> \<not> truthy_str (vcodec f)) \<or>
         (truthy_str (format f) \<and> sublist ''audio'' (the (format f)))
      then Audio
      else Video) \<and>
   c_type (make_candidate_p1 f) =
     (if vcodec f = Some ''none'' \<or> (truthy_str (acodec f) \<and> \<not> truthy_str (vcodec f))
      then Audio
      else Video)"
  unfolding make_candidate_p0_def make_candidate_def make_candidate_p1_def
  using classify_p0_rule[of f] classify_rule[of f] classify_p1_rule[of f]
  by simp

theorem classification_rules_witness:
  "c_type (make_candidate_p0 no_video_png) = Image \<and> c_type (make_candidate no_video_png) = Audio \<and>
   c_type (make_candidate_p1 no_video_png) = Audio \<and>
   c_type (make_candidate_p0 plain_png) = Image \<and> c_type (make_candidate plain_png) = Video \<and>
   c_type (make_candidate_p1 plain_png) = Video"
  using classification_rules[of no_video_png] classification_rules[of plain_png]
  by (simp add: no_video_png_def plain_png_def empty_format_def truthy_str_def toLowerCase_def is_upper_def)

subsection \<open>The scheme filter\<close>

lemma sample_URL_ftp: "sample_URL ''ftp://host/f'' = Some ''ftp:''"
  by (simp add: sample_URL_def is_lower_def is_upper_def is_digit_def toLowerCase_def)

lemma dedup_loop_drops:
  assumes "url_keyed ok mk" and "\<not> ok f"
  shows "\<forall>c \<in> set (dedup_loop ok mk rs [] {}). url f \<noteq> Some (c_url c)"
proof
  fix c assume "c \<in> set (dedup_loop ok mk rs [] {})"
  with dedup_loop_props(2)[OF assms(1), of rs]
  obtain g where g: "find (\<lambda>g. url g = Some (c_url c)) rs = Some g" "ok g" by blast
  have "url g = Some (c_url c)" using g(1) by (auto simp: find_Some_iff)
  with url_keyedD(3)[OF assms(1), of f g] g(2) assms(2) show "url f \<noteq> Some (c_url c)" by auto
qed

lemma not_url_ok_iff:
  "(\<not> url_ok URL f) =
   (url f = None \<or> url f = Some [] \<or> URL (the (url f)) = None \<or>
    (\<exists>p. URL (the (url f)) = Some p \<and> p \<noteq> ''http:'' \<and> p \<noteq> ''https:''))"
  by (auto simp: url_ok_def truthy_str_def split: option.splits)

text \<open>
  In \<^verbatim>\<open>server.js\<close> and \<^verbatim>\<open>part_000\<close> the filter is as C4 describes it: a record without
  \<open>url\<close>, with an empty \<open>url\<close>, with a \<open>url\<close> that does not parse, or with a protocol other
  than \<^verbatim>\<open>http:\<close> and \<^verbatim>\<open>https:\<close> contributes no candidate, whatever the list around it.
\<close>

lemma scheme_filter_server_p0:
  assumes "url (f::raw_format) = None \<or> url f = Some [] \<or> URL (the (url f)) = None \<or>
    (\<exists>p. URL (the (url f)) = Some p \<and> p \<noteq> ''http:'' \<and> p \<noteq> ''https:'')"
  shows "(\<forall>c \<in> set (normalizeAndFilterFormats URL rs). url f \<noteq> Some (c_url c)) \<and>
         (\<forall>c \<in> set (normalizeAndFilterFormats_p0 URL rs). url f \<noteq> Some (c_url c))"
proof -
  have "\<not> url_ok URL f" using assms by (simp only: not_url_ok_iff)
  then show ?thesis
    unfolding normalizeAndFilterFormats_def normalizeAndFilterFormats_p0_def
      normalize_loop_eq normalize_loop_p0_eq
    using dedup_loop_drops[OF url_keyed_server] dedup_loop_drops[OF url_keyed_p0] by blast
qed

text \<open>
  C4 fails on \<^verbatim>\<open>part_001\<close>, whose loop only asks whether \<^verbatim>\<open>new URL(f.url)\<close> throws and
  never reads the protocol: every record whose address parses is kept, whatever its
  scheme. At the specification's own example, \<^verbatim>\<open>ftp://host/f\<close>, the record is in the output
  of \<^verbatim>\<open>part_001\<close>, while \<^verbatim>\<open>server.js\<close> and \<^verbatim>\<open>part_000\<close> drop it.
\<close>

theorem normalize_p1_keeps_any_scheme:
  assumes "(f::raw_format) \<in> set rs" and "url f = Some u" and "u \<noteq> []" and "URL u = Some protocol"
  shows "u \<in> c_url ` set (normalizeAndFilterFormats_p1 URL rs)"
proof -
  have "url_ok_p1 URL f" using assms by (simp add: url_ok_p1_def truthy_str_def)
  with dedup_loop_props(3)[OF url_keyed_p1, of rs URL] assms(1,2) show ?thesis
    unfolding normalizeAndFilterFormats_p1_def normalize_loop_p1_eq by force
qed

theorem normalize_p1_keeps_ftp:
  "ftp_format \<in> set [ftp_format] \<and> url ftp_format = Some ''ftp://host/f'' \<and>
   sample_URL ''ftp://host/f'' = Some ''ftp:'' \<and>
   ''ftp://host/f'' \<in> c_url ` set (normalizeAndFilterFormats_p1 sample_URL [ftp_format]) \<and>
   normalizeAndFilterFormats sample_URL [ftp_format] = [] \<and>
   normalizeAndFilterFormats_p0 sample_URL [ftp_format] = []"
proof -
  have u: "url ftp_format = Some ''ftp://host/f''" by (simp add: ftp_format_def empty_format_def)
  have "''ftp://host/f'' \<in> c_url ` set (normalizeAndFilterFormats_p1 sample_URL [ftp_format])"
    using normalize_p1_keeps_any_scheme[of ftp_format "[ftp_format]" "''ftp://host/f''" sample_URL "''ftp:''"]
      u sample_URL_ftp by simp
  moreover have "normalizeAndFilterFormats sample_URL [ftp_format] = []"
    "normalizeAndFilterFormats_p0 sample_URL [ftp_format] = []"
    by (simp_all add: normalizeAndFilterFormats_def normalizeAndFilterFormats_p0_def url_ok_def
        truthy_str_def u sample_URL_ftp)
  ultimately show ?thesis using u sample_URL_ftp by simp
qed

subsection \<open>Labels\<close>













lemma sample_URL_v: "sample_URL ''https://a/v'' = Some ''https:''"
  by (simp add: sample_URL_def is_lower_def is_upper_def is_digit_def toLowerCase_def)

text \<open>
  In \<^verbatim>\<open>server.js\<close> a \<open>format_note\<close> made of white space only, with no height, gives the
  empty label: the template is trimmed to nothing and no fallback follows it.
  \<^verbatim>\<open>part_000\<close> falls back to \<^verbatim>\<open>"Unknown"\<close> on the same record.
\<close>

lemma label_blank_note_empty:
  "url_ok sample_URL blank_note \<and> map c_label (normalizeAndFilterFormats sample_URL [blank_note]) = [[]] \<and>
   map c_label (normalizeAndFilterFormats_p0 sample_URL [blank_note]) = [''Unknown'']"
  by (simp add: normalizeAndFilterFormats_def normalizeAndFilterFormats_p0_def blank_note_def
      empty_format_def url_ok_def truthy_str_def truthy_num_def sample_URL_v make_candidate_def
      make_candidate_p0_def make_label_def make_label_p0_def trim_def is_space_def)




subsection \<open>The size resolver\<close>

lemma probe_eq: "probe w = probe_with (getContentLength w)"
  by (rule ext, rule ext) (simp add: probe_def probe_with_def)

lemma probe_p0_eq: "probe_p0 w = probe_with (getContentLength_p0 w)"
  by (rule ext, rule ext) (simp add: probe_p0_def probe_with_def)

lemma resolved_url [simp]: "c_url (resolved gcl f) = c_url f"
  by (simp add: resolved_def)

lemma resolved_idem [simp]: "resolved gcl (resolved gcl f) = resolved gcl f"
  by (simp add: resolved_def)

lemma probe_with_step:
  "probe_with gcl (fs, tr) i = (fs[i := resolved gcl (fs ! i)], tr @ snd (gcl (c_url (fs ! i))))"
  by (simp add: probe_with_def resolved_def split: prod.splits)

lemma foldl_probe_with:
  assumes "\<forall>i \<in> set idxs. i < length fs"
  shows "foldl (probe_with gcl) (fs, tr) idxs =
     (map (\<lambda>j. if j \<in> set idxs then resolved gcl (fs ! j) else fs ! j) [0..<length fs],
      tr @ concat (map (\<lambda>i. snd (gcl (c_url (fs ! i)))) idxs))"
  using assms
proof (induction idxs rule: rev_induct)
  case Nil
  then show ?case by (simp add: map_nth)
next
  case (snoc i idxs)
  let ?gs = "map (\<lambda>j. if j \<in> set idxs then resolved gcl (fs ! j) else fs ! j) [0..<length fs]"
  have i: "i < length fs" using snoc.prems by simp
  have ih: "foldl (probe_with gcl) (fs, tr) idxs = (?gs, tr @ concat (map (\<lambda>i. snd (gcl (c_url (fs ! i)))) idxs))"
    using snoc by simp
  have gi: "c_url (?gs ! i) = c_url (fs ! i)" using i by simp
  have upd: "?gs[i := resolved gcl (?gs ! i)] =
        map (\<lambda>j. if j \<in> set (idxs @ [i]) then resolved gcl (fs ! j) else fs ! j) [0..<length fs]"
  proof (rule nth_equalityI)
    show "length (?gs[i := resolved gcl (?gs ! i)]) =
          length (map (\<lambda>j. if j \<in> set (idxs @ [i]) then resolved gcl (fs ! j) else fs ! j) [0..<length fs])"
      by simp
  next
    fix k assume "k < length (?gs[i := resolved gcl (?gs ! i)])"
    then have k: "k < length fs" by simp
    show "?gs[i := resolved gcl (?gs ! i)] ! k =
          map (\<lambda>j. if j \<in> set (idxs @ [i]) then resolved gcl (fs ! j) else fs ! j) [0..<length fs] ! k"
      using k i by (cases "k = i") (simp_all add: nth_list_update)
  qed
  show ?case
    by (simp only: foldl_append foldl.simps ih probe_with_step gi upd) simp
qed

lemma unresolved_lt: "\<forall>i \<in> set (unresolved fs). i < length fs"
  by (simp add: unresolved_def)

lemma take_unresolved_lt: "\<forall>i \<in> set (take n (unresolved fs)). i < length fs"
  using unresolved_lt[of fs] by (meson in_set_takeD)

lemma fill_sizes_eq:
  "fill_sizes w fs =
     (map (\<lambda>j. if j \<in> set (take 6 (unresolved fs)) then resolved (getContentLength w) (fs ! j) else fs ! j)
        [0..<length fs],
      concat (map (\<lambda>i. snd (getContentLength w (c_url (fs ! i)))) (take 6 (unresolved fs))))"
  unfolding fill_sizes_def probe_eq
  using foldl_probe_with[where gcl = "getContentLength w" and tr = "[]", OF take_unresolved_lt[of 6 fs]]
  by simp

lemma foldl_take_drop: "foldl f (foldl f st (take c xs)) (drop c xs) = foldl f st xs"
  by (metis append_take_drop_id foldl_append)

lemma probe_chunks_p0_eq:
  "probe_chunks_p0 w toCheck i st = foldl (probe_p0 w) st (drop i toCheck)"
proof (induction w toCheck i st rule: probe_chunks_p0.induct)
  case (1 w toCheck i st)
  show ?case
  proof (cases "i < length toCheck")
    case True
    have step: "probe_chunks_p0 w toCheck i st =
          probe_chunks_p0 w toCheck (i + concurrency) (foldl (probe_p0 w) st (take concurrency (drop i toCheck)))"
      using True by (subst probe_chunks_p0.simps) simp
    have ih: "probe_chunks_p0 w toCheck (i + concurrency) (foldl (probe_p0 w) st (take concurrency (drop i toCheck))) =
          foldl (probe_p0 w) (foldl (probe_p0 w) st (take concurrency (drop i toCheck)))
            (drop (i + concurrency) toCheck)"
      by (rule 1[OF True])
    have d: "drop (i + concurrency) toCheck = drop concurrency (drop i toCheck)"
      by (simp add: add.commute)
    show ?thesis by (simp only: step ih d foldl_take_drop)
  next
    case False
    then show ?thesis by (subst probe_chunks_p0.simps) simp
  qed
qed

lemma fill_sizes_p0_eq:
  "fill_sizes_p0 w fs =
     (map (\<lambda>j. if j \<in> set (unresolved fs) then resolved (getContentLength_p0 w) (fs ! j) else fs ! j)
        [0..<length fs],
      concat (map (\<lambda>i. snd (getContentLength_p0 w (c_url (fs ! i)))) (unresolved fs)))"
  unfolding fill_sizes_p0_def probe_chunks_p0_eq probe_p0_eq
  using foldl_probe_with[where gcl = "getContentLength_p0 w" and tr = "[]", OF unresolved_lt[of fs]]
  by simp

lemma getContentLength_events: "snd (getContentLength w u) = [Head u]"
  by (simp add: getContentLength_def Let_def split: sum.splits)

lemma getContentLength_p0_events:
  "snd (getContentLength_p0 w u) = [Head u] \<or> snd (getContentLength_p0 w u) = [Head u, GetRange u]"
  by (simp add: getContentLength_p0_def Let_def split: sum.splits option.splits)

lemma all_tiers_fail_null: "all_tiers_fail w u \<Longrightarrow> fst (getContentLength w u) = None"
  by (auto simp: all_tiers_fail_def getContentLength_def Let_def split: sum.splits)

lemma all_tiers_fail_p0_null: "all_tiers_fail_p0 w u \<Longrightarrow> fst (getContentLength_p0 w u) = None"
  by (auto simp: all_tiers_fail_p0_def getContentLength_p0_def Let_def split: sum.splits)

lemma resolved_null: "fst (gcl (c_url f)) = None \<Longrightarrow> resolved gcl f = f"
  by (simp add: resolved_def truthy_len_def)

lemma fill_sizes_nth:
  "i < length fs \<Longrightarrow>
   fst (fill_sizes w fs) ! i =
     (if i \<in> set (take 6 (unresolved fs)) then resolved (getContentLength w) (fs ! i) else fs ! i)"
  by (simp add: fill_sizes_eq)

lemma fill_sizes_p0_nth:
  "i < length fs \<Longrightarrow>
   fst (fill_sizes_p0 w fs) ! i =
     (if i \<in> set (unresolved fs) then resolved (getContentLength_p0 w) (fs ! i) else fs ! i)"
  by (simp add: fill_sizes_p0_eq)

lemma fill_sizes_length [simp]: "length (fst (fill_sizes w fs)) = length fs"
  by (simp add: fill_sizes_eq)

lemma fill_sizes_p0_length [simp]: "length (fst (fill_sizes_p0 w fs)) = length fs"
  by (simp add: fill_sizes_p0_eq)

lemma failed_probe_keeps_candidate:
  "i < length fs \<Longrightarrow> all_tiers_fail w (c_url (fs ! i)) \<Longrightarrow> fst (fill_sizes w fs) ! i = fs ! i"
  by (simp add: fill_sizes_nth resolved_null all_tiers_fail_null)

lemma failed_probe_keeps_candidate_p0:
  "i < length fs \<Longrightarrow> all_tiers_fail_p0 w (c_url (fs ! i)) \<Longrightarrow> fst (fill_sizes_p0 w fs) ! i = fs ! i"
  by (simp add: fill_sizes_p0_nth resolved_null all_tiers_fail_p0_null)

lemma pipeline_200:
  assumes "extract_meta w req = Some m"
    and "\<not> ENABLE_CACHING penv \<or>
         redis_set w (cacheKey_of req) (JSON_stringify w (payload_of w m)) 300 = Inr ()"
  shows "fst (extract_pipeline penv w (the (query_url req)) (cacheKey_of req)) =
         Responded 200 (Payload (payload_of w m))"
  using assms
  by (auto simp: extract_pipeline_def extract_meta_def payload_of_def raw_formats_of_def Let_def
      split: sum.splits option.splits)

lemma handler_200:
  assumes "valid_request w req" and "extract_meta w req = Some m"
    and "\<not> ENABLE_CACHING penv \<or>
         (cache_miss w req \<and>
          redis_set w (cacheKey_of req) (JSON_stringify w (payload_of w m)) 300 = Inr ())"
  shows "fst (extract_handler penv w req) = Responded 200 (Payload (payload_of w m))"
proof -
  have p: "fst (extract_pipeline penv w (the (query_url req)) (cacheKey_of req)) =
         Responded 200 (Payload (payload_of w m))"
    using assms(2,3) by (intro pipeline_200) auto
  show ?thesis
  proof (cases "ENABLE_CACHING penv")
    case True
    with assms(3) have "cache_miss w req" by simp
    then obtain cached where c: "redis_get w (cacheKey_of req) = Inr cached" "\<not> truthy_str cached"
      by (auto simp: cache_miss_def split: sum.splits)
    show ?thesis
      using assms(1) True c p
      by (auto simp: extract_handler_def valid_request_def Let_def cacheKey_of_def[symmetric] split: prod.splits)
  next
    case False
    then show ?thesis
      using assms(1) p
      by (simp add: extract_handler_def valid_request_def Let_def cacheKey_of_def[symmetric])
  qed
qed

lemma pipeline_p0_200:
  assumes "extract_meta_p0 w req = Some m"
  shows "fst (extract_pipeline_p0 penv w (the (query_url req)) (cacheKey_of req)) =
         Responded 200 (Payload (payload_of_p0 w m))"
  using assms
  by (auto simp: extract_pipeline_p0_def extract_meta_p0_def payload_of_p0_def raw_formats_of_def Let_def
      split: sum.splits option.splits)

lemma handler_p0_200:
  assumes "valid_request w req" and "\<not> key_rejected penv req" and "extract_meta_p0 w req = Some m"
    and "\<not> (ENABLE_CACHING penv \<and> cache_hit w req)"
  shows "fst (extract_handler_p0 penv w req) = Responded 200 (Payload (payload_of_p0 w m))"
proof -
  have p: "fst (extract_pipeline_p0 penv w (the (query_url req)) (cacheKey_of req)) =
         Responded 200 (Payload (payload_of_p0 w m))"
    using assms(3) by (rule pipeline_p0_200)
  show ?thesis
    using assms(1,2,4) p
    by (auto simp: extract_handler_p0_def valid_request_def cache_hit_def Let_def cacheKey_of_def[symmetric]
        split: prod.splits sum.splits)
qed

subsection \<open>Probe failures\<close>

text \<open>
  C7. \<^verbatim>\<open>getContentLength\<close> is a total function whose result is a length, \<^verbatim>\<open>NaN\<close> or
  \<^verbatim>\<open>null\<close>: no path of it throws. When the probe of a candidate fails at every tier the
  result is \<^verbatim>\<open>null\<close> and the size resolver leaves the candidate as it was, so a
  \<^verbatim>\<open>filesize\<close> of \<^verbatim>\<open>null\<close> stays \<^verbatim>\<open>null\<close>. Whatever the probes do, a request whose
  address parses, whose extraction succeeds and whose cache neither hits nor fails is
  answered 200 with the assembled payload (in \<^verbatim>\<open>part_000\<close> also when the cache fails).
  Both for \<^verbatim>\<open>server.js\<close> and for \<^verbatim>\<open>part_000\<close>.
\<close>

theorem probe_failure_is_local:
  "(all_tiers_fail w u \<longrightarrow> fst (getContentLength w u) = None) \<and>
   (all_tiers_fail_p0 w u \<longrightarrow> fst (getContentLength_p0 w u) = None) \<and>
   (i < length fs \<and> all_tiers_fail w (c_url (fs ! i)) \<longrightarrow> fst (fill_sizes w fs) ! i = fs ! i) \<and>
   (i < length gs \<and> all_tiers_fail_p0 w (c_url (gs ! i)) \<longrightarrow> fst (fill_sizes_p0 w gs) ! i = gs ! i) \<and>
   (valid_request w req \<and> extract_meta w req = Some m \<and>
    (\<not> ENABLE_CACHING penv \<or>
     (cache_miss w req \<and> redis_set w (cacheKey_of req) (JSON_stringify w (payload_of w m)) 300 = Inr ())) \<longrightarrow>
      fst (extract_handler penv w req) = Responded 200 (Payload (payload_of w m))) \<and>
   (valid_request w req \<and> \<not> key_rejected penv req \<and> extract_meta_p0 w req = Some m \<and>
    \<not> (ENABLE_CACHING penv \<and> cache_hit w req) \<longrightarrow>
      fst (extract_handler_p0 penv w req) = Responded 200 (Payload (payload_of_p0 w m)))"
  using all_tiers_fail_null[of w u] all_tiers_fail_p0_null[of w u]
    failed_probe_keeps_candidate[of i fs w] failed_probe_keeps_candidate_p0[of i gs w]
    handler_200[of w req m penv] handler_p0_200[of w req penv m]
  by blast

lemma sample_URL_page: "sample_URL ''https://a/page'' = Some ''https:''"
  by (simp add: sample_URL_def is_lower_def is_upper_def is_digit_def toLowerCase_def)

lemma quiet_world_facts:
  "valid_request (quiet_world fs) page_request"
  "extract_meta (quiet_world fs) page_request = Some \<lparr>meta_formats = Some fs\<rparr>"
  "extract_meta_p0 (quiet_world fs) page_request = Some \<lparr>meta_formats = Some fs\<rparr>"
  "all_tiers_fail (quiet_world fs) u" "all_tiers_fail_p0 (quiet_world fs) u"
  "\<not> ENABLE_CACHING plain_env" "\<not> key_rejected plain_env page_request"
  by (simp_all add: valid_request_def quiet_world_def page_request_def sample_URL_page truthy_str_def
      extract_meta_def extract_meta_p0_def parse_meta_def parse_meta_p0_def all_tiers_fail_def
      all_tiers_fail_p0_def ENABLE_CACHING_def REDIS_URL_def plain_env_def str_or_null_def
      key_rejected_def API_KEY_def)

theorem probe_failure_is_local_witness:
  "all_tiers_fail (quiet_world sample_duplicates) ''https://a/x.mp4'' \<and>
   fst (getContentLength (quiet_world sample_duplicates) ''https://a/x.mp4'') = None \<and>
   all_tiers_fail_p0 (quiet_world sample_duplicates) ''https://a/x.mp4'' \<and>
   fst (getContentLength_p0 (quiet_world sample_duplicates) ''https://a/x.mp4'') = None \<and>
   valid_request (quiet_world sample_duplicates) page_request \<and>
   extract_meta (quiet_world sample_duplicates) page_request = Some \<lparr>meta_formats = Some sample_duplicates\<rparr> \<and>
   fst (extract_handler plain_env (quiet_world sample_duplicates) page_request) =
     Responded 200 (Payload
       [\<lparr>m_label = ''720p'', m_size = ''Unknown'', m_url = ''https://a/x.mp4'', m_type = Video\<rparr>]) \<and>
   fst (extract_handler_p0 plain_env (quiet_world sample_duplicates) page_request) =
     Responded 200 (Payload
       [\<lparr>m_label = ''720p'', m_size = ''Unknown'', m_url = ''https://a/x.mp4'', m_type = Video\<rparr>])"
proof -
  let ?w = "quiet_world sample_duplicates"
  let ?m = "\<lparr>meta_formats = Some sample_duplicates\<rparr>"
  note th = probe_failure_is_local[where w = ?w and u = "''https://a/x.mp4''" and req = page_request
      and m = ?m and penv = plain_env and i = 0 and fs = "[]" and gs = "[]"]
  have a: "fst (getContentLength ?w ''https://a/x.mp4'') = None"
    "fst (getContentLength_p0 ?w ''https://a/x.mp4'') = None"
    using th quiet_world_facts(4,5) by blast+
  have b: "fst (extract_handler plain_env ?w page_request) = Responded 200 (Payload (payload_of ?w ?m))"
    using th quiet_world_facts(1,2,6) by blast
  have c: "fst (extract_handler_p0 plain_env ?w page_request) = Responded 200 (Payload (payload_of_p0 ?w ?m))"
    using th quiet_world_facts(1,3,6,7) by blast
  have p: "payload_of ?w ?m =
      [\<lparr>m_label = ''720p'', m_size = ''Unknown'', m_url = ''https://a/x.mp4'', m_type = Video\<rparr>]"
    "payload_of_p0 ?w ?m =
      [\<lparr>m_label = ''720p'', m_size = ''Unknown'', m_url = ''https://a/x.mp4'', m_type = Video\<rparr>]"
    by code_simp+
  show ?thesis
    using a b c quiet_world_facts(1,2,4,5) unfolding p by blast
qed

subsection \<open>Cache failures\<close>

lemma handler_get_rejects:
  assumes "valid_request w req" and "ENABLE_CACHING penv" and "redis_get w (cacheKey_of req) = Inl e"
  shows "extract_handler penv w req = (Rejected e, [RedisGet (cacheKey_of req)])"
  using assms
  by (auto simp: extract_handler_def valid_request_def Let_def cacheKey_of_def[symmetric])

lemma pipeline_set_fails:
  assumes "extract_meta w req = Some m" and "ENABLE_CACHING penv"
    and "redis_set w (cacheKey_of req) (JSON_stringify w (payload_of w m)) 300 = Inl e"
  shows "fst (extract_pipeline penv w (the (query_url req)) (cacheKey_of req)) = fail_500 e"
  using assms
  by (auto simp: extract_pipeline_def extract_meta_def payload_of_def raw_formats_of_def Let_def
      split: sum.splits option.splits)

lemma handler_set_fails:
  assumes "valid_request w req" and "ENABLE_CACHING penv" and "cache_miss w req"
    and "extract_meta w req = Some m"
    and "redis_set w (cacheKey_of req) (JSON_stringify w (payload_of w m)) 300 = Inl e"
  shows "fst (extract_handler penv w req) = fail_500 e"
proof -
  have p: "fst (extract_pipeline penv w (the (query_url req)) (cacheKey_of req)) = fail_500 e"
    using assms(4,2,5) by (rule pipeline_set_fails)
  obtain cached where c: "redis_get w (cacheKey_of req) = Inr cached" "\<not> truthy_str cached"
    using assms(3) by (auto simp: cache_miss_def split: sum.splits)
  show ?thesis
    using assms(1,2) c p
    by (auto simp: extract_handler_def valid_request_def Let_def cacheKey_of_def[symmetric] split: prod.splits)
qed

text \<open>
  In \<^verbatim>\<open>part_000\<close> both cache calls sit in their own \<^verbatim>\<open>try\<close>: a request whose cache read
  or write fails is answered as if there were no cache.
\<close>

lemma cache_failure_tolerated_p0:
  assumes "valid_request w req" and "\<not> key_rejected penv req" and "extract_meta_p0 w req = Some m"
    and "redis_get w (cacheKey_of req) = Inl e"
  shows "fst (extract_handler_p0 penv w req) = Responded 200 (Payload (payload_of_p0 w m))"
proof -
  have "\<not> cache_hit w req" using assms(4) by (simp add: cache_hit_def)
  then show ?thesis using assms(1-3) by (intro handler_p0_200) auto
qed

text \<open>
  C8 fails on \<^verbatim>\<open>server.js\<close>. With caching enabled, \<^verbatim>\<open>await redis.get(cacheKey)\<close> stands
  outside every \<^verbatim>\<open>try\<close>: when it rejects, the handler's promise rejects and no answer
  is sent. \<^verbatim>\<open>await redis.set(...)\<close> stands inside the extraction block: when it rejects,
  the \<^verbatim>\<open>catch\<close> of that block answers 500 with the cache error's message, although the
  payload was already assembled.
\<close>

theorem cache_failure_fails_request:
  "(valid_request w req \<and> ENABLE_CACHING penv \<and> redis_get w (cacheKey_of req) = Inl e \<longrightarrow>
      extract_handler penv w req = (Rejected e, [RedisGet (cacheKey_of req)])) \<and>
   (valid_request w req \<and> ENABLE_CACHING penv \<and> cache_miss w req \<and> extract_meta w req = Some m \<and>
    redis_set w (cacheKey_of req) (JSON_stringify w (payload_of w m)) 300 = Inl e \<longrightarrow>
      fst (extract_handler penv w req) = Responded 500 (ErrorBody (if e \<noteq> [] then e else ''Failed to extract formats'')))"
  using handler_get_rejects[of w req penv e] handler_set_fails[of w req penv m e]
  unfolding fail_500_def by blast

lemma sample_cache_facts:
  "ENABLE_CACHING caching_env"
  "valid_request (broken_cache_world fs) page_request"
  "redis_get (broken_cache_world fs) (cacheKey_of page_request) = Inl ''ECONNREFUSED''"
  "valid_request (failing_set_world fs) page_request"
  "cache_miss (failing_set_world fs) page_request"
  "extract_meta (failing_set_world fs) page_request = Some \<lparr>meta_formats = Some fs\<rparr>"
  "redis_set (failing_set_world fs) k v t = Inl ''ECONNREFUSED''"
  "extract_meta_p0 (broken_cache_world fs) page_request = Some \<lparr>meta_formats = Some fs\<rparr>"
  "\<not> key_rejected caching_env page_request"
  by (simp_all add: ENABLE_CACHING_def REDIS_URL_def caching_env_def str_or_null_def truthy_str_def
      valid_request_def broken_cache_world_def failing_set_world_def quiet_world_def page_request_def
      sample_URL_page cache_miss_def extract_meta_def extract_meta_p0_def parse_meta_def parse_meta_p0_def
      key_rejected_def API_KEY_def)

theorem cache_failure_fails_request_witness:
  "valid_request (broken_cache_world sample_duplicates) page_request \<and> ENABLE_CACHING caching_env \<and>
   redis_get (broken_cache_world sample_duplicates) (cacheKey_of page_request) = Inl ''ECONNREFUSED'' \<and>
   extract_handler caching_env (broken_cache_world sample_duplicates) page_request =
     (Rejected ''ECONNREFUSED'', [RedisGet (cacheKey_of page_request)]) \<and>
   cache_miss (failing_set_world sample_duplicates) page_request \<and>
   fst (extract_handler caching_env (failing_set_world sample_duplicates) page_request) =
     Responded 500 (ErrorBody ''ECONNREFUSED'') \<and>
   fst (extract_handler_p0 caching_env (broken_cache_world sample_duplicates) page_request) =
     Responded 200 (Payload
       [\<lparr>m_label = ''720p'', m_size = ''Unknown'', m_url = ''https://a/x.mp4'', m_type = Video\<rparr>])"
proof -
  let ?b = "broken_cache_world sample_duplicates"
  let ?s = "failing_set_world sample_duplicates"
  let ?m = "\<lparr>meta_formats = Some sample_duplicates\<rparr>"
  have g: "extract_handler caching_env ?b page_request =
      (Rejected ''ECONNREFUSED'', [RedisGet (cacheKey_of page_request)])"
    using cache_failure_fails_request[where w = ?b and req = page_request and penv = caching_env
        and e = "''ECONNREFUSED''" and m = ?m] sample_cache_facts(1,2,3)
    by blast
  have s: "fst (extract_handler caching_env ?s page_request) =
      Responded 500 (ErrorBody (if ''ECONNREFUSED'' \<noteq> [] then ''ECONNREFUSED'' else ''Failed to extract formats''))"
    using cache_failure_fails_request[where w = ?s and req = page_request and penv = caching_env
        and e = "''ECONNREFUSED''" and m = ?m] sample_cache_facts(1,4,5,6,7)
    by blast
  have p: "fst (extract_handler_p0 caching_env ?b page_request) = Responded 200 (Payload (payload_of_p0 ?b ?m))"
    using cache_failure_tolerated_p0[where w = ?b and req = page_request and penv = caching_env and m = ?m]
      sample_cache_facts(2,3,8,9) by blast
  have v: "payload_of_p0 ?b ?m =
      [\<lparr>m_label = ''720p'', m_size = ''Unknown'', m_url = ''https://a/x.mp4'', m_type = Video\<rparr>]"
    by code_simp
  show ?thesis
    using g s p sample_cache_facts(1,2,3,5) unfolding v by simp
qed

subsection \<open>The API key\<close>

lemma key_rejected_iff:
  "key_rejected penv req = (truthy_str (API_KEY penv) \<and> supplied_key req \<noteq> API_KEY penv)"
  by (auto simp: key_rejected_def)

lemma handler_p0_missing_url:
  "\<not> truthy_str (query_url req) \<Longrightarrow>
   extract_handler_p0 penv w req = (Responded 400 (ErrorBody ''Missing url parameter''), [])"
  by (simp add: extract_handler_p0_def Let_def)

lemma handler_p0_401:
  "truthy_str (query_url req) \<Longrightarrow> key_rejected penv req \<Longrightarrow>
   extract_handler_p0 penv w req = (Responded 401 (ErrorBody ''Missing or invalid API key''), [])"
  by (simp add: extract_handler_p0_def Let_def)

text \<open>
  \<^verbatim>\<open>server.js\<close> reads \<^verbatim>\<open>API_KEY\<close> from the environment and never looks at it again: the
  answer to a request is the same whatever key is configured.
\<close>

lemma server_ignores_api_key:
  "extract_handler (penv\<lparr>env_API_KEY := k\<rparr>) w req = extract_handler penv w req"
proof -
  have ec: "ENABLE_CACHING (penv\<lparr>env_API_KEY := k\<rparr>) = ENABLE_CACHING penv"
    by (simp add: ENABLE_CACHING_def REDIS_URL_def)
  have ep: "extract_pipeline (penv\<lparr>env_API_KEY := k\<rparr>) w t c = extract_pipeline penv w t c" for t c
    unfolding extract_pipeline_def ec ..
  show ?thesis unfolding extract_handler_def ec ep ..
qed

text \<open>
  C9, as stated, fails: the handler of \<^verbatim>\<open>part_000\<close> tests the \<^verbatim>\<open>url\<close> parameter before the
  key, so a request without \<^verbatim>\<open>url\<close> and without a key is answered 400, not 401, with
  access control enabled.
\<close>

theorem api_key_counterexample:
  "truthy_str (API_KEY keyed_env) \<and> supplied_key no_url_request = None \<and>
   key_rejected keyed_env no_url_request \<and>
   extract_handler_p0 keyed_env (quiet_world []) no_url_request =
     (Responded 400 (ErrorBody ''Missing url parameter''), [])"
  by (simp add: extract_handler_p0_def Let_def no_url_request_def keyed_env_def API_KEY_def
      str_or_null_def truthy_str_def key_rejected_def supplied_key_def)

text \<open>
  C9, amended. In \<^verbatim>\<open>part_000\<close>, for every request to \<^verbatim>\<open>/api/extract\<close> that carries a
  \<^verbatim>\<open>url\<close> parameter: when an API key is configured and the supplied credential (the
  \<^verbatim>\<open>x-api-key\<close> header, or else the \<^verbatim>\<open>apikey\<close> query parameter) is absent or differs from
  it, the answer is 401 with \<^verbatim>\<open>{error: "Missing or invalid API key"}\<close> and no call is made
  to the cache, the extractor or a probe. A request without \<^verbatim>\<open>url\<close> is answered 400 with
  \<^verbatim>\<open>{error: "Missing url parameter"}\<close> before the key is looked at, also with no call.
\<close>

theorem api_key_rejection:
  "(truthy_str (query_url req) \<and> truthy_str (API_KEY penv) \<and> supplied_key req \<noteq> API_KEY penv \<longrightarrow>
      extract_handler_p0 penv w req = (Responded 401 (ErrorBody ''Missing or invalid API key''), [])) \<and>
   (\<not> truthy_str (query_url req) \<longrightarrow>
      extract_handler_p0 penv w req = (Responded 400 (ErrorBody ''Missing url parameter''), []))"
  using handler_p0_401[of req penv w] handler_p0_missing_url[of req penv w]
  unfolding key_rejected_iff by blast

theorem api_key_rejection_witness:
  "truthy_str (query_url page_request) \<and> truthy_str (API_KEY keyed_env) \<and>
   supplied_key page_request \<noteq> API_KEY keyed_env \<and>
   extract_handler_p0 keyed_env (quiet_world sample_duplicates) page_request =
     (Responded 401 (ErrorBody ''Missing or invalid API key''), []) \<and>
   supplied_key (page_request\<lparr>header_x_api_key := Some ''guess''\<rparr>) \<noteq> API_KEY keyed_env \<and>
   extract_handler_p0 keyed_env (quiet_world sample_duplicates) (page_request\<lparr>header_x_api_key := Some ''guess''\<rparr>) =
     (Responded 401 (ErrorBody ''Missing or invalid API key''), []) \<and>
   \<not> truthy_str (query_url no_url_request) \<and>
   extract_handler_p0 keyed_env (quiet_world sample_duplicates) no_url_request =
     (Responded 400 (ErrorBody ''Missing url parameter''), [])"
proof -
  have a: "truthy_str (query_url page_request)" "truthy_str (API_KEY keyed_env)"
    "supplied_key page_request \<noteq> API_KEY keyed_env"
    "truthy_str (query_url (page_request\<lparr>header_x_api_key := Some ''guess''\<rparr>))"
    "supplied_key (page_request\<lparr>header_x_api_key := Some ''guess''\<rparr>) \<noteq> API_KEY keyed_env"
    "\<not> truthy_str (query_url no_url_request)"
    by (simp_all add: page_request_def no_url_request_def keyed_env_def API_KEY_def str_or_null_def
        truthy_str_def supplied_key_def)
  show ?thesis
    using api_key_rejection[of page_request keyed_env "quiet_world sample_duplicates"]
      api_key_rejection[of "page_request\<lparr>header_x_api_key := Some ''guess''\<rparr>" keyed_env "quiet_world sample_duplicates"]
      api_key_rejection[of no_url_request keyed_env "quiet_world sample_duplicates"] a
    by blast
qed

subsection \<open>Sizes of zero\<close>

lemma pick_filesize_zero:
  "pick_filesize (f\<lparr>filesize := Some 0\<rparr>) = pick_filesize (f\<lparr>filesize := None\<rparr>)"
  "pick_filesize (f\<lparr>filesize_approx := Some 0\<rparr>) = pick_filesize (f\<lparr>filesize_approx := None\<rparr>)"
  by (simp_all add: pick_filesize_def truthy_num_def)

lemma make_candidate_zero:
  "make_candidate (f\<lparr>filesize := Some 0\<rparr>) = make_candidate (f\<lparr>filesize := None\<rparr>)"
  "make_candidate (f\<lparr>filesize_approx := Some 0\<rparr>) = make_candidate (f\<lparr>filesize_approx := None\<rparr>)"
  by (simp_all add: make_candidate_def pick_filesize_def truthy_num_def make_label_def classify_def
      height_p_def)

lemma pick_filesize_null_iff:
  "(pick_filesize f = None) = (\<not> truthy_num (filesize f) \<and> \<not> truthy_num (filesize_approx f))"
  by (auto simp: pick_filesize_def truthy_num_def split: option.splits)

lemma null_is_unresolved:
  "i < length fs \<Longrightarrow> c_filesize (fs ! i) = None \<Longrightarrow> i \<in> set (unresolved fs)"
  by (simp add: unresolved_def truthy_num_def)

lemma probed_has_head:
  "i \<in> set (take 6 (unresolved fs)) \<Longrightarrow> Head (c_url (fs ! i)) \<in> set (snd (fill_sizes w fs))"
  by (auto simp: fill_sizes_eq getContentLength_events)

lemma head_only_for_probed:
  "Head u \<in> set (snd (fill_sizes w fs)) \<Longrightarrow> \<exists>i \<in> set (take 6 (unresolved fs)). u = c_url (fs ! i)"
  by (auto simp: fill_sizes_eq getContentLength_events)

lemma unprobed_unchanged:
  "i < length fs \<Longrightarrow> i \<notin> set (take 6 (unresolved fs)) \<Longrightarrow> fst (fill_sizes w fs) ! i = fs ! i"
  by (simp add: fill_sizes_nth)

lemma filled_filesize:
  "i < length fs \<Longrightarrow>
   c_filesize (fst (fill_sizes w fs) ! i) =
     (if i \<in> set (take 6 (unresolved fs)) \<and> truthy_len (fst (getContentLength w (c_url (fs ! i))))
      then Some (len_value (fst (getContentLength w (c_url (fs ! i)))))
      else c_filesize (fs ! i))"
  by (simp add: fill_sizes_nth resolved_def)

lemma truthy_len_value: "truthy_len v \<Longrightarrow> len_value v \<noteq> 0"
  by (auto simp: truthy_len_def len_value_def split: option.splits js_num.splits)

lemma zero_not_truthy: "\<not> truthy_len (Some (Num 0))" "\<not> truthy_len None" "\<not> truthy_len (Some NaN)"
  by (simp_all add: truthy_len_def)

lemma last_units: "k < 4 \<Longrightarrow> last (units ! k) = CHR ''B''"
proof -
  assume "k < 4"
  then have "k = 0 \<or> k = 1 \<or> k = 2 \<or> k = 3" by arith
  then show ?thesis by (auto simp: units_def)
qed

lemma unit_index_lt: "unit_index n < 4"
  by (simp add: unit_index_def)

lemma units_nonempty: "k < 4 \<Longrightarrow> units ! k \<noteq> []"
proof -
  assume "k < 4"
  then have "k = 0 \<or> k = 1 \<or> k = 2 \<or> k = 3" by arith
  then show ?thesis by (auto simp: units_def)
qed

lemma humanFileSize_last:
  assumes "n \<noteq> 0"
  shows "last (humanFileSize (Some n)) = CHR ''B''"
proof (cases "\<bar>n\<bar> < 1024")
  case True
  with assms show ?thesis by (simp add: humanFileSize_small)
next
  case False
  then have "humanFileSize (Some n) =
      toFixed1 (of_int n / 1024 ^ (unit_index n + 1)) @ '' '' @ units ! unit_index n"
    by (simp add: humanFileSize_large)
  then show ?thesis
    using last_units[OF unit_index_lt, of n] units_nonempty[OF unit_index_lt, of n]
    by (simp add: last_append)
qed

lemma humanFileSize_known: "n \<noteq> 0 \<Longrightarrow> humanFileSize (Some n) \<noteq> ''Unknown''"
  using humanFileSize_last[of n] by auto

lemma digits_value_foldl_ge: "foldl (\<lambda>a c. 10 * a + ((of_char c :: nat) - 48)) a ds \<ge> 0"
  by simp

lemma parseInt_digits:
  assumes "s \<noteq> []" and "list_all is_digit s"
  shows "parseInt s = Num (int (digits_value s))"
proof -
  obtain c cs where s: "s = c # cs" using assms(1) by (cases s) auto
  have c: "is_digit c" using assms(2) s by simp
  then have "\<not> is_space c" "c \<noteq> CHR ''-''" "c \<noteq> CHR ''+''"
    by (auto simp: is_digit_def is_space_def)
  moreover have "takeWhile is_digit s = s" using assms(2) by (simp add: list_all_iff)
  ultimately show ?thesis using s by (simp add: parseInt_def Let_def)
qed

text \<open>
  C10, as stated, fails on the words "is therefore selected for network probing":
  \<^verbatim>\<open>server.js\<close> probes \<^verbatim>\<open>formats.filter(f => !f.filesize).slice(0, 6)\<close>. Of seven
  candidates that all declare the size 0, all seven have the \<^verbatim>\<open>filesize\<close> \<^verbatim>\<open>null\<close>, the
  first six are probed and the seventh is not.
\<close>

theorem zero_size_counterexample:
  "map c_filesize (normalizeAndFilterFormats sample_URL seven_zero) = replicate 7 None \<and>
   List.member (snd (extract_handler plain_env (quiet_world seven_zero) page_request)) (Head ''https://a/6'') \<and>
   \<not> List.member (snd (extract_handler plain_env (quiet_world seven_zero) page_request)) (Head ''https://a/7'')"
  by code_simp

text \<open>
  C10, amended. In \<^verbatim>\<open>server.js\<close> a declared or approximate size of 0 is treated exactly
  like an absent one: the candidate built is the same, and its \<^verbatim>\<open>filesize\<close> is \<^verbatim>\<open>null\<close>
  exactly when neither field holds a number other than zero. Such a candidate is among
  the unresolved candidates; the first six of these, in output order, are probed with a
  \<^verbatim>\<open>HEAD\<close> request, the others are not probed and stay as they are. A probe that reports
  the length 0 (or \<^verbatim>\<open>NaN\<close>, or \<^verbatim>\<open>null\<close>) never overwrites the \<^verbatim>\<open>null\<close>. So the displayed
  size of such an entry is \<^verbatim>\<open>"Unknown"\<close> unless it is probed and the probe resolves a
  length other than zero; when that length is a safe integer the size displayed is
  \<^verbatim>\<open>humanFileSize\<close> of it and is not \<^verbatim>\<open>"Unknown"\<close>. A \<^verbatim>\<open>content-length\<close> made of digits
  never resolves to a negative length, and resolves to the integer its digits denote
  when that integer is safe.
\<close>

theorem zero_size_is_unknown:
  "make_candidate (f\<lparr>filesize := Some 0\<rparr>) = make_candidate (f\<lparr>filesize := None\<rparr>) \<and>
   make_candidate (f\<lparr>filesize_approx := Some 0\<rparr>) = make_candidate (f\<lparr>filesize_approx := None\<rparr>) \<and>
   (c_filesize (make_candidate f) = None) =
     (\<not> truthy_num (filesize f) \<and> \<not> truthy_num (filesize_approx f)) \<and>
   (i < length fs \<and> c_filesize (fs ! i) = None \<longrightarrow>
      i \<in> set (unresolved fs) \<and>
      (i \<in> set (take 6 (unresolved fs)) \<longrightarrow> Head (c_url (fs ! i)) \<in> set (snd (fill_sizes w fs))) \<and>
      (i \<notin> set (take 6 (unresolved fs)) \<longrightarrow> fst (fill_sizes w fs) ! i = fs ! i) \<and>
      (\<not> truthy_len (fst (getContentLength w (c_url (fs ! i)))) \<longrightarrow>
         c_filesize (fst (fill_sizes w fs) ! i) = None) \<and>
      (\<not> (i \<in> set (take 6 (unresolved fs)) \<and> truthy_len (fst (getContentLength w (c_url (fs ! i))))) \<longrightarrow>
         m_size (to_mapped (fst (fill_sizes w fs) ! i)) = ''Unknown'') \<and>
      (i \<in> set (take 6 (unresolved fs)) \<and> truthy_len (fst (getContentLength w (c_url (fs ! i)))) \<and>
       safe_integer (len_value (fst (getContentLength w (c_url (fs ! i))))) \<longrightarrow>
         m_size (to_mapped (fst (fill_sizes w fs) ! i)) =
           humanFileSize (Some (len_value (fst (getContentLength w (c_url (fs ! i)))))) \<and>
         m_size (to_mapped (fst (fill_sizes w fs) ! i)) \<noteq> ''Unknown'')) \<and>
   \<not> truthy_len (Some (Num 0)) \<and> \<not> truthy_len (Some NaN) \<and> \<not> truthy_len None \<and>
   (s \<noteq> [] \<and> list_all is_digit s \<longrightarrow> (\<exists>k. parseInt s = Num k \<and> 0 \<le> k)) \<and>
   (s \<noteq> [] \<and> list_all is_digit s \<and> safe_integer (int (digits_value s)) \<longrightarrow>
      parseInt s = Num (int (digits_value s)))"
proof -
  have d: "(c_filesize (make_candidate f) = None) =
     (\<not> truthy_num (filesize f) \<and> \<not> truthy_num (filesize_approx f))"
    by (simp add: make_candidate_def pick_filesize_null_iff)
  have r: "i \<in> set (unresolved fs) \<and>
      (i \<in> set (take 6 (unresolved fs)) \<longrightarrow> Head (c_url (fs ! i)) \<in> set (snd (fill_sizes w fs))) \<and>
      (i \<notin> set (take 6 (unresolved fs)) \<longrightarrow> fst (fill_sizes w fs) ! i = fs ! i) \<and>
      (\<not> truthy_len (fst (getContentLength w (c_url (fs ! i)))) \<longrightarrow>
         c_filesize (fst (fill_sizes w fs) ! i) = None) \<and>
      (\<not> (i \<in> set (take 6 (unresolved fs)) \<and> truthy_len (fst (getContentLength w (c_url (fs ! i))))) \<longrightarrow>
         m_size (to_mapped (fst (fill_sizes w fs) ! i)) = ''Unknown'') \<and>
      (i \<in> set (take 6 (unresolved fs)) \<and> truthy_len (fst (getContentLength w (c_url (fs ! i)))) \<and>
       safe_integer (len_value (fst (getContentLength w (c_url (fs ! i))))) \<longrightarrow>
         m_size (to_mapped (fst (fill_sizes w fs) ! i)) =
           humanFileSize (Some (len_value (fst (getContentLength w (c_url (fs ! i)))))) \<and>
         m_size (to_mapped (fst (fill_sizes w fs) ! i)) \<noteq> ''Unknown'')"
    if i: "i < length fs" and n: "c_filesize (fs ! i) = None"
  proof -
    let ?len = "fst (getContentLength w (c_url (fs ! i)))"
    let ?probed = "i \<in> set (take 6 (unresolved fs)) \<and> truthy_len ?len"
    have fsz: "c_filesize (fst (fill_sizes w fs) ! i) = (if ?probed then Some (len_value ?len) else None)"
      using filled_filesize[OF i, of w] n by simp
    have unk: "\<not> ?probed \<Longrightarrow> m_size (to_mapped (fst (fill_sizes w fs) ! i)) = ''Unknown''"
    proof -
      assume np: "\<not> ?probed"
      then have "c_filesize (fst (fill_sizes w fs) ! i) = None" using fsz by simp
      then show ?thesis by (simp add: to_mapped_def humanFileSize_table(5))
    qed
    have kn: "?probed \<Longrightarrow>
        m_size (to_mapped (fst (fill_sizes w fs) ! i)) = humanFileSize (Some (len_value ?len)) \<and>
        m_size (to_mapped (fst (fill_sizes w fs) ! i)) \<noteq> ''Unknown''"
    proof -
      assume pr: ?probed
      then have "c_filesize (fst (fill_sizes w fs) ! i) = Some (len_value ?len)" using fsz by simp
      then have e: "m_size (to_mapped (fst (fill_sizes w fs) ! i)) = humanFileSize (Some (len_value ?len))"
        by (simp add: to_mapped_def)
      have "len_value ?len \<noteq> 0" using pr by (intro truthy_len_value) simp
      then have "humanFileSize (Some (len_value ?len)) \<noteq> ''Unknown''" by (rule humanFileSize_known)
      with e show ?thesis by simp
    qed
    have nul: "\<not> truthy_len ?len \<Longrightarrow> c_filesize (fst (fill_sizes w fs) ! i) = None"
      using fsz by simp
    show ?thesis
      using null_is_unresolved[OF i n] probed_has_head[of i fs w] unprobed_unchanged[OF i, of w]
        unk kn nul
      by blast
  qed
  have nn: "\<exists>k. parseInt s = Num k \<and> 0 \<le> k" if "s \<noteq> []" "list_all is_digit s"
    using parseInt_digits[OF that] by simp
  show ?thesis
    using make_candidate_zero[of f] d r zero_not_truthy parseInt_digits[of s] nn
    by (simp only: simp_thms) blast
qed

lemma seven_zero_facts:
  "length (normalizeAndFilterFormats sample_URL seven_zero) = 7"
  "c_filesize (normalizeAndFilterFormats sample_URL seven_zero ! 0) = None"
  "c_filesize (normalizeAndFilterFormats sample_URL seven_zero ! 6) = None"
  "c_url (normalizeAndFilterFormats sample_URL seven_zero ! 0) = ''https://a/1''"
  "unresolved (normalizeAndFilterFormats sample_URL seven_zero) = [0, 1, 2, 3, 4, 5, 6]"
  "fst (getContentLength (zero_length_world seven_zero) ''https://a/1'') = Some (Num 0)"
  "fst (getContentLength (sized_world seven_zero) ''https://a/1'') = Some (Num 2048)"
  by code_simp+

theorem zero_size_is_unknown_witness:
  "(0::nat) < length (normalizeAndFilterFormats sample_URL seven_zero) \<and>
   c_filesize (normalizeAndFilterFormats sample_URL seven_zero ! 0) = None \<and>
   0 \<in> set (take 6 (unresolved (normalizeAndFilterFormats sample_URL seven_zero))) \<and>
   Head ''https://a/1'' \<in>
     set (snd (fill_sizes (zero_length_world seven_zero) (normalizeAndFilterFormats sample_URL seven_zero))) \<and>
   \<not> truthy_len (fst (getContentLength (zero_length_world seven_zero) ''https://a/1'')) \<and>
   c_filesize (fst (fill_sizes (zero_length_world seven_zero) (normalizeAndFilterFormats sample_URL seven_zero)) ! 0) = None \<and>
   m_size (to_mapped (fst (fill_sizes (zero_length_world seven_zero)
       (normalizeAndFilterFormats sample_URL seven_zero)) ! 0)) = ''Unknown'' \<and>
   (6::nat) < length (normalizeAndFilterFormats sample_URL seven_zero) \<and>
   c_filesize (normalizeAndFilterFormats sample_URL seven_zero ! 6) = None \<and>
   6 \<in> set (unresolved (normalizeAndFilterFormats sample_URL seven_zero)) \<and>
   6 \<notin> set (take 6 (unresolved (normalizeAndFilterFormats sample_URL seven_zero))) \<and>
   fst (fill_sizes (zero_length_world seven_zero) (normalizeAndFilterFormats sample_URL seven_zero)) ! 6 =
     normalizeAndFilterFormats sample_URL seven_zero ! 6 \<and>
   truthy_len (fst (getContentLength (sized_world seven_zero) ''https://a/1'')) \<and>
   safe_integer (len_value (fst (getContentLength (sized_world seven_zero) ''https://a/1''))) \<and>
   m_size (to_mapped (fst (fill_sizes (sized_world seven_zero)
       (normalizeAndFilterFormats sample_URL seven_zero)) ! 0)) = humanFileSize (Some 2048) \<and>
   m_size (to_mapped (fst (fill_sizes (sized_world seven_zero)
       (normalizeAndFilterFormats sample_URL seven_zero)) ! 0)) \<noteq> ''Unknown'' \<and>
   ''0'' \<noteq> [] \<and> list_all is_digit ''0'' \<and> safe_integer (int (digits_value ''0'')) \<and>
   parseInt ''0'' = Num (int (digits_value ''0''))"
proof -
  let ?fs = "normalizeAndFilterFormats sample_URL seven_zero"
  let ?w = "zero_length_world seven_zero"
  have i0: "(0::nat) < length ?fs" "(6::nat) < length ?fs" by (simp_all add: seven_zero_facts(1))
  have t0: "0 \<in> set (take 6 (unresolved ?fs))" "6 \<notin> set (take 6 (unresolved ?fs))"
    by (simp_all add: seven_zero_facts(5))
  have l0: "\<not> truthy_len (fst (getContentLength ?w (c_url (?fs ! 0))))"
    by (simp add: seven_zero_facts(4,6) truthy_len_def)
  have dg: "''0'' \<noteq> [] \<and> list_all is_digit ''0'' \<and> safe_integer (int (digits_value ''0''))"
    by (simp add: is_digit_def digits_value_def safe_integer_def)
  note a = zero_size_is_unknown[where i = 0 and fs = ?fs and w = ?w and s = "''0''"]
  note b = zero_size_is_unknown[where i = 6 and fs = ?fs and w = ?w and s = "''0''"]
  have ra: "Head (c_url (?fs ! 0)) \<in> set (snd (fill_sizes ?w ?fs))"
    "c_filesize (fst (fill_sizes ?w ?fs) ! 0) = None"
    "m_size (to_mapped (fst (fill_sizes ?w ?fs) ! 0)) = ''Unknown''"
    "parseInt ''0'' = Num (int (digits_value ''0''))"
    using a i0(1) seven_zero_facts(2) t0(1) l0 dg by blast+
  have rb: "6 \<in> set (unresolved ?fs)" "fst (fill_sizes ?w ?fs) ! 6 = ?fs ! 6"
    using b i0(2) seven_zero_facts(3) t0(2) by blast+
  have m: "m_size (to_mapped (fst (fill_sizes ?w ?fs) ! 0)) = ''Unknown''"
    by (rule ra(3))
  let ?v = "sized_world seven_zero"
  have l1: "truthy_len (fst (getContentLength ?v (c_url (?fs ! 0))))"
    "safe_integer (len_value (fst (getContentLength ?v (c_url (?fs ! 0)))))"
    "len_value (fst (getContentLength ?v (c_url (?fs ! 0)))) = 2048"
    by (simp_all add: seven_zero_facts(4,7) truthy_len_def len_value_def safe_integer_def)
  note c = zero_size_is_unknown[where i = 0 and fs = ?fs and w = ?v and s = "''0''"]
  have rc: "m_size (to_mapped (fst (fill_sizes ?v ?fs) ! 0)) =
        humanFileSize (Some (len_value (fst (getContentLength ?v (c_url (?fs ! 0))))))"
    "m_size (to_mapped (fst (fill_sizes ?v ?fs) ! 0)) \<noteq> ''Unknown''"
    using c i0(1) seven_zero_facts(2) t0(1) l1(1,2) by blast+
  have rc': "m_size (to_mapped (fst (fill_sizes ?v ?fs) ! 0)) = humanFileSize (Some 2048)"
    using rc(1) unfolding l1(3) .
  have l1': "truthy_len (fst (getContentLength ?v ''https://a/1''))"
    "safe_integer (len_value (fst (getContentLength ?v ''https://a/1'')))"
    using l1(1,2) unfolding seven_zero_facts(4) .
  show ?thesis
    using i0 seven_zero_facts(2,3) t0 ra(1,2,4) rb m l0 dg rc' rc(2) l1'
    unfolding seven_zero_facts(4) by blast
qed

subsection \<open>The display ordering\<close>

lemma compare_mapped_key: "(compare_mapped a b \<le> 0) = (mapped_key a \<le> mapped_key b)"
  by (cases "m_type a"; cases "m_type b")
     (auto simp: compare_mapped_def mapped_key_def type_rank_def Let_def less_eq_prod_def)

lemma insert_sorted_key: "insert_sorted compare_mapped x ys = insort_key mapped_key x ys"
  by (induction ys) (auto simp: compare_mapped_key)

lemma array_sort_key: "array_sort compare_mapped xs = sort_key mapped_key xs"
proof -
  have "insert_sorted compare_mapped = insort_key mapped_key"
    by (intro ext) (rule insert_sorted_key)
  then show ?thesis by (simp add: array_sort_def sort_key_def)
qed

text \<open>
  What the sort of \<^verbatim>\<open>part_000\<close> does achieve: the entries are a rearrangement of the input,
  videos come before audio entries and these before images, entries of one type are
  in descending order of the number displayed (whatever its unit), and entries with the
  same type and the same displayed number keep their input order.
\<close>

lemma array_sort_props:
  "set (array_sort compare_mapped xs) = set xs \<and> length (array_sort compare_mapped xs) = length xs"
  "sorted (map mapped_key (array_sort compare_mapped xs))"
  "sorted (map (type_rank \<circ> m_type) (array_sort compare_mapped xs))"
  "filter (\<lambda>m. mapped_key m = k) (array_sort compare_mapped xs) = filter (\<lambda>m. mapped_key m = k) xs"
proof -
  show "set (array_sort compare_mapped xs) = set xs \<and> length (array_sort compare_mapped xs) = length xs"
    by (simp add: array_sort_key)
  show s: "sorted (map mapped_key (array_sort compare_mapped xs))" by (simp add: array_sort_key)
  have "sorted (map fst (map mapped_key (array_sort compare_mapped xs)))"
    using s by (auto simp: sorted_iff_nth_mono less_eq_prod_def order.strict_iff_order)
  moreover have "fst \<circ> mapped_key = type_rank \<circ> m_type"
    by (rule ext) (simp add: mapped_key_def)
  ultimately show "sorted (map (type_rank \<circ> m_type) (array_sort compare_mapped xs))"
    by (simp only: map_map)
  show "filter (\<lambda>m. mapped_key m = k) (array_sort compare_mapped xs) = filter (\<lambda>m. mapped_key m = k) xs"
    by (simp add: array_sort_key sort_key_stable)
qed

text \<open>
  C6 fails on the code. The comparator of \<^verbatim>\<open>part_000\<close> reads \<^verbatim>\<open>parseFloat(a.size)\<close>, and
  \<^verbatim>\<open>a.size\<close> is the text \<^verbatim>\<open>humanFileSize\<close> made: \<^verbatim>\<open>"1.0 MB"\<close> reads as 1 and
  \<^verbatim>\<open>"2.0 KB"\<close> as 2. Of two videos of 1048576 and 2048 bytes, given in this order, the
  response lists the smaller one first. \<^verbatim>\<open>server.js\<close> does not sort at all: given the
  smaller video first, it answers with the smaller video first.
\<close>

theorem sort_ignores_units:
  "map c_filesize (normalizeAndFilterFormats_p0 sample_URL big_and_small) = [Some 1048576, Some 2048] \<and>
   fst (extract_handler_p0 plain_env (quiet_world big_and_small) page_request) =
     Responded 200 (Payload
       [\<lparr>m_label = ''Unknown'', m_size = ''2.0 KB'', m_url = ''https://a/small.mp4'', m_type = Video\<rparr>,
        \<lparr>m_label = ''Unknown'', m_size = ''1.0 MB'', m_url = ''https://a/big.mp4'', m_type = Video\<rparr>]) \<and>
   fst (extract_handler plain_env (quiet_world (rev big_and_small)) page_request) =
     Responded 200 (Payload
       [\<lparr>m_label = ''Unknown'', m_size = ''2.0 KB'', m_url = ''https://a/small.mp4'', m_type = Video\<rparr>,
        \<lparr>m_label = ''Unknown'', m_size = ''1.0 MB'', m_url = ''https://a/big.mp4'', m_type = Video\<rparr>])"
  by code_simp

end
